theory Spec2Isabelle
  imports Complex_Main
begin

section \<open>Data model\<close>

text \<open>
  Python exceptions are values. Every class below derives from \<open>Exception\<close>, so an
  \<open>except Exception\<close> handler catches each of them. \<open>KeyError\<close> carries the missing
  key, the others their message. \<open>OtherError cls msg\<close> stands for any further
  \<open>Exception\<close> subclass raised by a library (Pillow, the Gemini SDK, the transport).
\<close>

datatype py_exception =
    ValueError string
  | ZeroDivisionError string
  | OverflowError string
  | IndexError string
  | KeyError string
  | TypeError string
  | AttributeError string
  | OSError string
  | OtherError string string

text \<open>
  Python's \<open>repr\<close> of a string (ASCII text): quoted with \<open>'\<close>, or with \<open>"\<close> when the
  string holds a \<open>'\<close> and no \<open>"\<close>; the quote and the backslash are escaped with a
  backslash, control characters are written as a backslash and \<open>n\<close>, \<open>r\<close>, \<open>t\<close> or
  \<open>xNN\<close> (two hexadecimal digits).
\<close>

definition hex_digit :: "nat \<Rightarrow> char" where
  "hex_digit n = (if n < 10 then char_of (48 + n) else char_of (87 + n))"

definition repr_char :: "char \<Rightarrow> char \<Rightarrow> string" where
  "repr_char q c =
     (let n = (of_char c :: nat)
      in if c = q \<or> c = CHR 0x5C then [CHR 0x5C, c]
         else if n = 10 then [CHR 0x5C, CHR ''n'']
         else if n = 13 then [CHR 0x5C, CHR ''r'']
         else if n = 9 then [CHR 0x5C, CHR ''t'']
         else if n < 32 \<or> n = 127 then [CHR 0x5C, CHR ''x'', hex_digit (n div 16), hex_digit (n mod 16)]
         else [c])"

definition py_repr :: "string \<Rightarrow> string" where
  "py_repr s =
     (let q = (if CHR 0x27 \<in> set s \<and> CHR 0x22 \<notin> set s then CHR 0x22 else CHR 0x27)
      in q # concat (map (repr_char q) s) @ [q])"

text \<open>\<open>str\<close> of an exception is its message; of a \<open>KeyError\<close>, the \<open>repr\<close> of the key.\<close>

fun str_exc :: "py_exception \<Rightarrow> string" where
  "str_exc (ValueError m) = m"
| "str_exc (ZeroDivisionError m) = m"
| "str_exc (OverflowError m) = m"
| "str_exc (IndexError m) = m"
| "str_exc (KeyError k) = py_repr k"
| "str_exc (TypeError m) = m"
| "str_exc (AttributeError m) = m"
| "str_exc (OSError m) = m"
| "str_exc (OtherError c m) = m"

type_synonym 'a result = "py_exception + 'a"

definition bind_exc :: "'a result \<Rightarrow> ('a \<Rightarrow> 'b result) \<Rightarrow> 'b result" where
  "bind_exc r f = (case r of Inl e \<Rightarrow> Inl e | Inr x \<Rightarrow> f x)"

text \<open>
  Pixel data is kept symbolic: where it came from and which Pillow operations were
  applied to it. Nothing is assumed about what a conversion or the Lanczos filter compute.
  \<open>File_data\<close> is the content of an opened file: \<open>Image.open\<close> reads the header only,
  and the pixels are decoded when an operation first loads them.
\<close>

type_synonym bytes = "nat list"

datatype pixels =
    File_data bytes
  | Solid string
  | Converted string pixels
  | Lanczos int int pixels

record image =
  width :: int
  height :: int
  mode :: string
  pixels :: pixels

text \<open>
  What Pillow does is not part of the repository, so its failures are parameters: the
  exception \<open>load\<close> raises while decoding the data of an opened file (a truncated or
  corrupt upload), and the exception a conversion from one mode to another raises (a pair
  of modes Pillow has no conversion for), if any.
\<close>

record pillow =
  load_failure :: "bytes \<Rightarrow> py_exception option"
  convert_failure :: "string \<Rightarrow> string \<Rightarrow> py_exception option"

definition nl :: string where
  "nl = [CHR 0x0A]"

section \<open>PromptBuilder: \<open>_create_merge_prompt\<close>\<close>

definition base_prompt :: string where
  "base_prompt =
     ''I have two images: a child's face photo and a book cover. Please merge the child's face seamlessly into the book cover design. '' @ nl
   @ nl
   @ ''Requirements:'' @ nl
   @ ''- Integrate the child's face naturally into the book cover'' @ nl
   @ ''- Keep the book's title, text, and design elements intact'' @ nl
   @ ''- Match the lighting and color tone of the book cover'' @ nl
   @ ''- Make the face placement look professional and appealing'' @ nl
   @ ''- Ensure the integration appears natural and well-blended''"

definition natural_clause :: string where
  "natural_clause = ''Keep the child's face realistic with natural lighting that matches the book cover style.''"

definition artistic_clause :: string where
  "artistic_clause = ''Apply artistic effects to blend the face with the book's illustration style while keeping it recognizable.''"

definition cartoon_clause :: string where
  "cartoon_clause = ''Stylize the face to match cartoon or illustrated book aesthetics if the cover has that style.''"

text \<open>The dict literal, as an association list in source order.\<close>

definition style_additions :: "(string \<times> string) list" where
  "style_additions =
     [(''natural'', natural_clause),
      (''artistic'', artistic_clause),
      (''cartoon'', cartoon_clause)]"

text \<open>\<open>d[k]\<close> raises KeyError on a missing key; \<open>d.get(k, default)\<close> does not.\<close>

definition subscript :: "(string \<times> 'v) list \<Rightarrow> string \<Rightarrow> 'v result" where
  "subscript d k = (case map_of d k of None \<Rightarrow> Inl (KeyError k) | Some v \<Rightarrow> Inr v)"

definition dict_get :: "(string \<times> 'v) list \<Rightarrow> string \<Rightarrow> 'v \<Rightarrow> 'v" where
  "dict_get d k dflt = (case map_of d k of None \<Rightarrow> dflt | Some v \<Rightarrow> v)"

definition prompt_tail :: string where
  "prompt_tail = nl @ nl @ ''Generate the merged book cover image with the child's face integrated.''"

definition create_merge_prompt :: "string \<Rightarrow> string result" where
  "create_merge_prompt merge_style =
     bind_exc (subscript style_additions ''natural'') (\<lambda>dflt.
       Inr (base_prompt @ nl @ ''- '' @ dict_get style_additions merge_style dflt @ prompt_tail))"

section \<open>Client construction: \<open>GeminiImageClient.__init__\<close>\<close>

type_synonym environ = "string \<rightharpoonup> string"

record client =
  api_key :: string
  model :: string

text \<open>
  What an operation does to the outside world, in order: requests sent to the remote
  service, lines printed, and the construction of the SDK's connection handle.
\<close>

datatype content_part = Text string | Img image

record request =
  req_model :: string
  req_contents :: "content_part list"
  response_modalities :: "string list"

datatype event = Remote_call request | Print string | Client_created

text \<open>
  \<open>os.getenv\<close> gives \<open>None\<close> for an unset variable; \<open>not self.api_key\<close> holds for
  \<open>None\<close> and for the empty string. On success the key is copied to \<open>GOOGLE_API_KEY\<close>
  and the SDK client is created.
\<close>

definition client_init :: "environ \<Rightarrow> (client \<times> environ) result \<times> event list" where
  "client_init env =
     (case env ''GEMINI_API_KEY'' of
        None \<Rightarrow> (Inl (ValueError ''GEMINI_API_KEY not found in environment variables''), [])
      | Some key \<Rightarrow>
          if key = [] then (Inl (ValueError ''GEMINI_API_KEY not found in environment variables''), [])
          else (Inr (\<lparr>api_key = key, model = ''gemini-2.0-flash-preview-image-generation''\<rparr>,
                     env(''GOOGLE_API_KEY'' \<mapsto> key)),
                [Client_created]))"

section \<open>ValidationGate: \<open>validate_uploaded_image\<close>\<close>

text \<open>Python's \<open>str.title()\<close> on ASCII text: a letter is upper-cased after a non-letter
  and lower-cased after a letter.\<close>

definition is_lower :: "char \<Rightarrow> bool" where
  "is_lower c = (97 \<le> (of_char c :: nat) \<and> (of_char c :: nat) \<le> 122)"

definition is_upper :: "char \<Rightarrow> bool" where
  "is_upper c = (65 \<le> (of_char c :: nat) \<and> (of_char c :: nat) \<le> 90)"

definition to_upper :: "char \<Rightarrow> char" where
  "to_upper c = (if is_lower c then char_of ((of_char c :: nat) - 32) else c)"

definition to_lower :: "char \<Rightarrow> char" where
  "to_lower c = (if is_upper c then char_of ((of_char c :: nat) + 32) else c)"

fun title_from :: "bool \<Rightarrow> string \<Rightarrow> string" where
  "title_from prev [] = []"
| "title_from prev (c # cs) =
     (if is_lower c then (if prev then c else to_upper c) # title_from True cs
      else if is_upper c then (if prev then to_lower c else c) # title_from True cs
      else c # title_from False cs)"

definition title :: "string \<Rightarrow> string" where
  "title s = title_from False s"

text \<open>
  A Streamlit upload: its MIME type, its size in bytes and its content. \<open>Image.open\<close> is
  Pillow's decoder, taken as a parameter: it returns the decoded image or raises.
\<close>

record uploaded_file =
  file_type :: string
  file_size :: nat
  file_bytes :: bytes

definition validate_uploaded_image ::
  "(bytes \<Rightarrow> image result) \<Rightarrow> uploaded_file option \<Rightarrow> string \<Rightarrow> bool \<times> string \<times> image option" where
  "validate_uploaded_image Image_open uploaded image_type =
     (case uploaded of
        None \<Rightarrow> (False, ''Please upload a '' @ image_type @ '' image'', None)
      | Some f \<Rightarrow>
          if file_type f \<notin> set [''image/jpeg'', ''image/jpg'', ''image/png'']
          then (False, ''Please upload a JPEG or PNG image'', None)
          else if file_size f > 10 * 1024 * 1024
          then (False, ''File size too large. Please upload an image smaller than 10MB'', None)
          else (case Image_open (file_bytes f) of
                  Inl e \<Rightarrow> (False, ''Error processing '' @ image_type @ '' image: '' @ str_exc e, None)
                | Inr img \<Rightarrow>
                    if width img < 100 \<or> height img < 100
                    then (let min_size = (if image_type = ''face'' then ''100x100'' else ''200x200'')
                          in (False, title image_type @ '' image too small. Minimum size: '' @ min_size @ '' pixels'', None))
                    else (True, title image_type @ '' image uploaded successfully'', Some img)))"

section \<open>Python floats: binary64 arithmetic\<close>

text \<open>
  \<open>max_size / max(width, height)\<close> is Python's true division of two ints and
  \<open>width * ratio\<close> is a float product, so the resize arithmetic is IEEE 754 binary64
  with round-to-nearest, ties-to-even. A finite float is the rational it denotes.
  \<open>bit_length\<close> is the number of binary digits of a positive integer, \<open>ilog2 x\<close> the
  exponent \<open>e\<close> with \<open>2^e \<le> x < 2^(e+1)\<close>, and \<open>round_binary64\<close> rounds to a
  53-bit significand (fixed spacing \<open>2^-1074\<close> in the subnormal range).
\<close>

function bit_length :: "int \<Rightarrow> int" where
  "bit_length n = (if n \<le> 0 then 0 else 1 + bit_length (n div 2))"
  by pat_completeness auto
termination
  by (relation "measure nat") auto

declare bit_length.simps [simp del]

definition round_half_even :: "rat \<Rightarrow> int" where
  "round_half_even x =
     (let f = \<lfloor>x\<rfloor>; d = x - of_int f
      in if d < 1/2 then f else if 1/2 < d then f + 1 else if even f then f else f + 1)"

definition ilog2 :: "rat \<Rightarrow> int" where
  "ilog2 x =
     (let (p, q) = quotient_of x;
          d = bit_length p - bit_length q
      in if 2 powi d \<le> x then d else d - 1)"

definition round_binary64 :: "rat \<Rightarrow> rat" where
  "round_binary64 x =
     (if x = 0 then 0
      else let e = max (ilog2 \<bar>x\<bar>) (- 1022); ulp = 2 powi (e - 52)
           in sgn x * of_int (round_half_even (\<bar>x\<bar> / ulp)) * ulp)"

text \<open>A rounded magnitude of \<open>2^1024\<close> or more is beyond the largest finite float.\<close>

definition overflows :: "rat \<Rightarrow> bool" where
  "overflows q = (2 ^ 1024 \<le> \<bar>q\<bar>)"

datatype pyfloat = Finite rat | Infinity bool

text \<open>\<open>a / b\<close> on ints: correctly rounded; raises on a zero divisor and on overflow.\<close>

definition int_truediv :: "int \<Rightarrow> int \<Rightarrow> rat result" where
  "int_truediv a b =
     (if b = 0 then Inl (ZeroDivisionError ''division by zero'')
      else let q = round_binary64 (of_int a / of_int b)
           in if overflows q then Inl (OverflowError ''integer division result too large for a float'')
              else Inr q)"

text \<open>\<open>n * x\<close> with an int and a float: the int is converted first (raising when it is
  too large), the product overflows silently to an infinity.\<close>

definition float_of_int :: "int \<Rightarrow> rat result" where
  "float_of_int n =
     (let q = round_binary64 (of_int n)
      in if overflows q then Inl (OverflowError ''int too large to convert to float'') else Inr q)"

definition float_mul :: "rat \<Rightarrow> rat \<Rightarrow> pyfloat" where
  "float_mul x y =
     (let q = round_binary64 (x * y)
      in if overflows q then Infinity (0 < q) else Finite q)"

definition int_mul_float :: "int \<Rightarrow> rat \<Rightarrow> pyfloat result" where
  "int_mul_float n x = bind_exc (float_of_int n) (\<lambda>y. Inr (float_mul y x))"

text \<open>\<open>int(x)\<close> truncates towards zero and raises on an infinity.\<close>

fun int_of_float :: "pyfloat \<Rightarrow> int result" where
  "int_of_float (Finite x) = Inr (if 0 \<le> x then \<lfloor>x\<rfloor> else \<lceil>x\<rceil>)"
| "int_of_float (Infinity pos) = Inl (OverflowError ''cannot convert float infinity to integer'')"

section \<open>ImagePreprocessor: \<open>_prepare_image_for_api\<close>\<close>

text \<open>
  Pillow's \<open>load\<close> decodes file data on first use and does nothing on pixels already in
  memory. \<open>convert\<close> loads, returns a copy when the mode is already the requested one,
  and otherwise converts, keeping the size. \<open>resize\<close> loads, returns a copy when the
  requested size is the current one, and otherwise passes the size to the resampler, which
  takes two C ints (\<open>OverflowError\<close> outside their range, with the messages of a 64-bit
  platform), refuses a width or height below 1 with \<open>ValueError\<close>, and resamples to
  exactly the requested size.
\<close>

definition load :: "pillow \<Rightarrow> image \<Rightarrow> py_exception option" where
  "load pil im = (case pixels im of File_data b \<Rightarrow> load_failure pil b | _ \<Rightarrow> None)"

definition convert :: "pillow \<Rightarrow> image \<Rightarrow> string \<Rightarrow> image result" where
  "convert pil im m =
     (case load pil im of
        Some e \<Rightarrow> Inl e
      | None \<Rightarrow>
          if m = mode im then Inr im
          else (case convert_failure pil (mode im) m of
                  Some e \<Rightarrow> Inl e
                | None \<Rightarrow> Inr (im\<lparr>mode := m, pixels := Converted m (pixels im)\<rparr>)))"

definition c_int :: "int \<Rightarrow> int result" where
  "c_int n =
     (if n < - (2 ^ 63) \<or> 2 ^ 63 \<le> n then Inl (OverflowError ''Python int too large to convert to C long'')
      else if 2 ^ 31 \<le> n then Inl (OverflowError ''signed integer is greater than maximum'')
      else if n < - (2 ^ 31) then Inl (OverflowError ''signed integer is less than minimum'')
      else Inr n)"

definition resize :: "pillow \<Rightarrow> image \<Rightarrow> int \<times> int \<Rightarrow> image result" where
  "resize pil im sz =
     (case load pil im of
        Some e \<Rightarrow> Inl e
      | None \<Rightarrow>
          if sz = (width im, height im) then Inr im
          else bind_exc (c_int (fst sz)) (\<lambda>xsize.
               bind_exc (c_int (snd sz)) (\<lambda>ysize.
                 if xsize < 1 \<or> ysize < 1 then Inl (ValueError ''height and width must be > 0'')
                 else Inr (im\<lparr>width := xsize, height := ysize,
                              pixels := Lanczos xsize ysize (pixels im)\<rparr>))))"

definition prepare_image_for_api :: "pillow \<Rightarrow> image \<Rightarrow> int \<Rightarrow> image result" where
  "prepare_image_for_api pil image0 max_size =
     bind_exc (if mode image0 \<noteq> ''RGB'' then convert pil image0 ''RGB'' else Inr image0) (\<lambda>image1.
       let w = width image1;
           h = height image1
       in if max w h > max_size then
            bind_exc (int_truediv max_size (max w h)) (\<lambda>ratio.
            bind_exc (bind_exc (int_mul_float w ratio) int_of_float) (\<lambda>new_width.
            bind_exc (bind_exc (int_mul_float h ratio) int_of_float) (\<lambda>new_height.
            resize pil image1 (new_width, new_height))))
          else Inr image1)"

text \<open>The images Pillow can hold: its sizes are non-negative C ints.\<close>

definition well_formed :: "image \<Rightarrow> bool" where
  "well_formed im = (0 \<le> width im \<and> 0 \<le> height im \<and> width im < 2 ^ 31 \<and> height im < 2 ^ 31)"

section \<open>RemoteImageService boundary\<close>

text \<open>
  A response as the SDK types it: every level may be \<open>None\<close>. Field \<open>part_text\<close> is
  the SDK's \<open>text\<close>.
\<close>

record blob =
  data :: "bytes option"

record part =
  inline_data :: "blob option"
  part_text :: "string option"

record content =
  parts :: "part list option"

record candidate =
  cand_content :: "content option"

record response =
  candidates :: "candidate list option"

text \<open>
  The collaborators outside the repository: Pillow's decoder, the length of what
  \<open>image.save(buffer, format='JPEG')\<close> writes (or the exception it raises), the
  remote model call, which returns a response or raises, and Pillow's failures in
  \<open>load\<close> and \<open>convert\<close>.
\<close>

record externals =
  Image_open :: "bytes \<Rightarrow> image result"
  save_jpeg :: "image \<Rightarrow> nat result"
  generate_content :: "request \<Rightarrow> response result"
  pil :: pillow

text \<open>\<open>response.candidates[0].content.parts\<close>, with the exception each \<open>None\<close> or
  empty list raises on the way.\<close>

definition first_parts :: "response \<Rightarrow> part list option result" where
  "first_parts resp =
     (case candidates resp of
        None \<Rightarrow> Inl (TypeError '''NoneType' object is not subscriptable'')
      | Some [] \<Rightarrow> Inl (IndexError ''list index out of range'')
      | Some (c # cs) \<Rightarrow>
          (case cand_content c of
             None \<Rightarrow> Inl (AttributeError ('''NoneType' object has no attribute 'parts'' @ [CHR 0x27]))
           | Some ct \<Rightarrow> Inr (parts ct)))"

definition iterate :: "'a list option \<Rightarrow> 'a list result" where
  "iterate xs = (case xs of None \<Rightarrow> Inl (TypeError '''NoneType' object is not iterable'') | Some l \<Rightarrow> Inr l)"

text \<open>\<open>BytesIO(None)\<close> is the empty buffer.\<close>

definition BytesIO :: "bytes option \<Rightarrow> bytes" where
  "BytesIO b = (case b of None \<Rightarrow> [] | Some bs \<Rightarrow> bs)"

section \<open>MergeClient\<close>

subsection \<open>\<open>merge_face_into_book_cover\<close>\<close>

text \<open>The loop over the parts: the first part with inline data is decoded and returned.\<close>

fun extract_image :: "(bytes \<Rightarrow> image result) \<Rightarrow> part list \<Rightarrow> image option result" where
  "extract_image opn [] = Inr None"
| "extract_image opn (p # ps) =
     (case inline_data p of
        Some b \<Rightarrow> bind_exc (opn (BytesIO (data b))) (\<lambda>generated_image. Inr (Some generated_image))
      | None \<Rightarrow> extract_image opn ps)"

text \<open>
  The body of the \<open>try\<close> block: its value or the exception that left it, and the
  requests sent before that.
\<close>

definition merge_request :: "pillow \<Rightarrow> image \<Rightarrow> image \<Rightarrow> string \<Rightarrow> request result" where
  "merge_request pl face_image book_cover_image merge_style =
     bind_exc (prepare_image_for_api pl face_image 1024) (\<lambda>face_img.
     bind_exc (prepare_image_for_api pl book_cover_image 1024) (\<lambda>book_img.
     bind_exc (create_merge_prompt merge_style) (\<lambda>prompt.
       Inr \<lparr>req_model = ''gemini-2.0-flash-preview-image-generation'',
            req_contents = [Text prompt, Img face_img, Img book_img],
            response_modalities = [''IMAGE'']\<rparr>)))"

definition merge_body :: "externals \<Rightarrow> image \<Rightarrow> image \<Rightarrow> string \<Rightarrow> image option result \<times> event list" where
  "merge_body ext face_image book_cover_image merge_style =
     (case merge_request (pil ext) face_image book_cover_image merge_style of
        Inl e \<Rightarrow> (Inl e, [])
      | Inr req \<Rightarrow>
          (bind_exc (generate_content ext req) (\<lambda>resp.
           bind_exc (first_parts resp) (\<lambda>ps.
           bind_exc (iterate ps) (extract_image (Image_open ext)))),
           [Remote_call req]))"

definition merge_face_into_book_cover :: "externals \<Rightarrow> image \<Rightarrow> image \<Rightarrow> string \<Rightarrow> image option \<times> event list" where
  "merge_face_into_book_cover ext face_image book_cover_image merge_style =
     (case merge_body ext face_image book_cover_image merge_style of
        (Inr r, evs) \<Rightarrow> (r, evs)
      | (Inl e, evs) \<Rightarrow> (None, evs @ [Print (''Error generating merged image: '' @ str_exc e)]))"

subsection \<open>\<open>analyze_images\<close>\<close>






subsection \<open>\<open>validate_images\<close>\<close>

definition validate_images :: "externals \<Rightarrow> image \<Rightarrow> image \<Rightarrow> bool \<times> string" where
  "validate_images ext face_image book_cover_image =
     (if width face_image < 100 \<or> height face_image < 100
      then (False, ''Face image is too small (minimum 100x100 pixels)'')
      else if width book_cover_image < 200 \<or> height book_cover_image < 200
      then (False, ''Book cover image is too small (minimum 200x200 pixels)'')
      else (case save_jpeg ext face_image of
              Inl e \<Rightarrow> (False, ''Error validating images: '' @ str_exc e)
            | Inr face_len \<Rightarrow>
                if face_len > 10 * 1024 * 1024
                then (False, ''Face image file is too large (max 10MB)'')
                else (case save_jpeg ext book_cover_image of
                        Inl e \<Rightarrow> (False, ''Error validating images: '' @ str_exc e)
                      | Inr book_len \<Rightarrow>
                          if book_len > 10 * 1024 * 1024
                          then (False, ''Book cover image file is too large (max 10MB)'')
                          else (True, ''Images are suitable for merging''))))"

subsection \<open>\<open>test_api_connection\<close>\<close>





section \<open>The application's use of ValidationGate and the client (\<open>main\<close>)\<close>

text \<open>
  The session keeps the two accepted images. An upload replaces the stored image by the
  validated one, or clears it when validation rejects; the Generate button exists only
  while both images are stored, and calls \<open>merge_face_into_book_cover\<close>.
\<close>

record session_state =
  face_image :: "image option"
  book_image :: "image option"
  merged_image :: "image option"

definition upload_face :: "externals \<Rightarrow> session_state \<Rightarrow> uploaded_file \<Rightarrow> session_state" where
  "upload_face ext st face_file =
     (case validate_uploaded_image (Image_open ext) (Some face_file) ''face'' of
        (is_valid, msg, face_img) \<Rightarrow>
          if is_valid then st\<lparr>face_image := face_img\<rparr> else st\<lparr>face_image := None\<rparr>)"

definition upload_book :: "externals \<Rightarrow> session_state \<Rightarrow> uploaded_file \<Rightarrow> session_state" where
  "upload_book ext st book_file =
     (case validate_uploaded_image (Image_open ext) (Some book_file) ''book'' of
        (is_valid, msg, book_img) \<Rightarrow>
          if is_valid then st\<lparr>book_image := book_img\<rparr> else st\<lparr>book_image := None\<rparr>)"

definition generate_merge :: "externals \<Rightarrow> session_state \<Rightarrow> string \<Rightarrow> session_state \<times> event list" where
  "generate_merge ext st merge_style =
     (case (face_image st, book_image st) of
        (Some face, Some book) \<Rightarrow>
          (case merge_face_into_book_cover ext face book merge_style of
             (Some merged, evs) \<Rightarrow> (st\<lparr>merged_image := Some merged\<rparr>, evs)
           | (None, evs) \<Rightarrow> (st, evs))
      | _ \<Rightarrow> (st, []))"

section \<open>Sample inputs\<close>

definition sample_image :: "int \<Rightarrow> int \<Rightarrow> string \<Rightarrow> image" where
  "sample_image w h m = \<lparr>width = w, height = h, mode = m, pixels = File_data []\<rparr>"

definition sample_upload :: uploaded_file where
  "sample_upload = \<lparr>file_type = ''image/png'', file_size = 50000, file_bytes = []\<rparr>"

text \<open>Collaborators for the examples: a Pillow on which every load and conversion
  succeeds, a decoder that yields a given image, a JPEG encoder that refuses the modes
  Pillow's JPEG writer refuses, a remote service with a fixed reply.\<close>

definition sample_pillow :: pillow where
  "sample_pillow = \<lparr>load_failure = (\<lambda>b. None), convert_failure = (\<lambda>src dst. None)\<rparr>"

definition sample_externals :: "image \<Rightarrow> response result \<Rightarrow> externals" where
  "sample_externals decoded reply =
     \<lparr>Image_open = (\<lambda>b. Inr decoded),
      save_jpeg = (\<lambda>im. if mode im \<in> set [''1'', ''L'', ''RGB'', ''RGBX'', ''CMYK'', ''YCbCr'']
                         then Inr 4096
                         else Inl (OSError (''cannot write mode '' @ mode im @ '' as JPEG''))),
      generate_content = (\<lambda>req. reply),
      pil = sample_pillow\<rparr>"

text \<open>The requests among the events of a run.\<close>

definition remote_calls :: "event list \<Rightarrow> request list" where
  "remote_calls evs = concat (map (\<lambda>ev. case ev of Remote_call r \<Rightarrow> [r] | _ \<Rightarrow> []) evs)"

text \<open>A request, two replies and a failing remote service for the examples.\<close>

definition sample_request :: request where
  "sample_request =
     \<lparr>req_model = ''gemini-2.0-flash-preview-image-generation'',
      req_contents = [Text (base_prompt @ nl @ ''- '' @ cartoon_clause @ prompt_tail),
                      Img (sample_image 300 300 ''RGB''), Img (sample_image 400 600 ''RGB'')],
      response_modalities = [''IMAGE'']\<rparr>"

definition empty_reply :: response where
  "empty_reply = \<lparr>candidates = Some [\<lparr>cand_content = Some \<lparr>parts = Some []\<rparr>\<rparr>]\<rparr>"

definition image_reply :: response where
  "image_reply =
     \<lparr>candidates = Some [\<lparr>cand_content = Some \<lparr>parts = Some
        [\<lparr>inline_data = None, part_text = Some ''Here is the cover''\<rparr>,
         \<lparr>inline_data = Some \<lparr>data = Some [137, 80, 78, 71]\<rparr>, part_text = None\<rparr>]\<rparr>\<rparr>]\<rparr>"

definition failing_externals :: externals where
  "failing_externals =
     sample_externals (sample_image 512 768 ''RGB'') (Inl (OtherError ''ServerError'' ''503 UNAVAILABLE''))"

text \<open>A decoder that accepts one payload only, and a reply whose first inline part it
  refuses.\<close>

definition decoding_externals :: "response result \<Rightarrow> externals" where
  "decoding_externals reply =
     \<lparr>Image_open = (\<lambda>b. if b = [137, 80, 78, 71] then Inr (sample_image 512 768 ''RGB'')
                          else Inl (OtherError ''UnidentifiedImageError'' ''cannot identify image file'')),
      save_jpeg = (\<lambda>im. Inr 4096),
      generate_content = (\<lambda>req. reply),
      pil = sample_pillow\<rparr>"

definition two_inline_reply :: response where
  "two_inline_reply =
     \<lparr>candidates = Some [\<lparr>cand_content = Some \<lparr>parts = Some
        [\<lparr>inline_data = Some \<lparr>data = Some [0, 1, 2, 3]\<rparr>, part_text = None\<rparr>,
         \<lparr>inline_data = Some \<lparr>data = Some [137, 80, 78, 71]\<rparr>, part_text = None\<rparr>]\<rparr>\<rparr>]\<rparr>"

section \<open>Properties\<close>

subsection \<open>Strings\<close>

lemma str_KeyError_natural: "str_exc (KeyError ''natural'') = [CHR 0x27] @ ''natural'' @ [CHR 0x27]"
  by code_simp

lemma title_face: "title ''face'' = ''Face''"
  by code_simp

lemma title_book: "title ''book'' = ''Book''"
  by code_simp

subsection \<open>PromptBuilder\<close>

lemma subscript_natural: "subscript style_additions ''natural'' = Inr natural_clause"
  by (simp add: subscript_def style_additions_def)

lemma create_merge_prompt_eq:
  "create_merge_prompt s =
     Inr (base_prompt @ nl @ ''- '' @
          (if s = ''artistic'' then artistic_clause
           else if s = ''cartoon'' then cartoon_clause else natural_clause) @ prompt_tail)"
  unfolding create_merge_prompt_def subscript_natural
  by (simp add: bind_exc_def dict_get_def style_additions_def)

lemma clauses_distinct:
  "natural_clause \<noteq> artistic_clause" "natural_clause \<noteq> cartoon_clause" "artistic_clause \<noteq> cartoon_clause"
  by (simp_all add: natural_clause_def artistic_clause_def cartoon_clause_def)

text \<open>
  C4. The prompt depends on the style alone. For natural, artistic and cartoon it is the
  base instruction, a newline, \<open>- \<close>, that style's clause and the fixed closing line; the
  three prompts are pairwise different; any other style gives the prompt of natural.
\<close>

theorem prompt_builder_styles:
  "create_merge_prompt ''natural'' = Inr (base_prompt @ nl @ ''- '' @ natural_clause @ prompt_tail)
   \<and> create_merge_prompt ''artistic'' = Inr (base_prompt @ nl @ ''- '' @ artistic_clause @ prompt_tail)
   \<and> create_merge_prompt ''cartoon'' = Inr (base_prompt @ nl @ ''- '' @ cartoon_clause @ prompt_tail)
   \<and> distinct [create_merge_prompt ''natural'', create_merge_prompt ''artistic'', create_merge_prompt ''cartoon'']
   \<and> (\<forall>s. s \<notin> {''natural'', ''artistic'', ''cartoon''} \<longrightarrow> create_merge_prompt s = create_merge_prompt ''natural'')"
  by (simp add: create_merge_prompt_eq clauses_distinct)

theorem prompt_builder_styles_witness:
  "''watercolor'' \<notin> {''natural'', ''artistic'', ''cartoon''}
   \<and> create_merge_prompt ''watercolor'' = create_merge_prompt ''natural''"
  using prompt_builder_styles by simp

subsection \<open>Client construction\<close>

text \<open>
  C8. With \<open>GEMINI_API_KEY\<close> unset, construction raises \<open>ValueError\<close> at once: no
  client is returned and nothing has happened before the raise, in particular no request.
\<close>

theorem client_init_unset:
  "env ''GEMINI_API_KEY'' = None \<Longrightarrow>
     client_init env = (Inl (ValueError ''GEMINI_API_KEY not found in environment variables''), [])"
  by (simp add: client_init_def)

theorem client_init_unset_witness:
  "(Map.empty :: environ) ''GEMINI_API_KEY'' = None
   \<and> client_init Map.empty = (Inl (ValueError ''GEMINI_API_KEY not found in environment variables''), [])"
  using client_init_unset [of Map.empty] by simp

subsection \<open>ValidationGate\<close>

text \<open>
  C1. \<open>validate_uploaded_image\<close> compares both dimensions with 100 whatever the role, and only the text of
  the rejection names 200x200 for a book cover: a 150x150 book cover (PNG, 50000 bytes)
  is accepted.
\<close>

theorem gate_accepts_small_book_cover:
  "validate_uploaded_image (\<lambda>b. Inr (sample_image 150 150 ''RGB'')) (Some sample_upload) ''book''
     = (True, ''Book image uploaded successfully'', Some (sample_image 150 150 ''RGB''))"
  by (simp add: validate_uploaded_image_def sample_upload_def sample_image_def title_book)

lemma gate_rejects_low:
  assumes "opn (file_bytes f) = Inr img" "width img < 100 \<or> height img < 100"
  shows "fst (validate_uploaded_image opn (Some f) role) = False"
    and "snd (snd (validate_uploaded_image opn (Some f) role)) = None"
  using assms by (auto simp add: validate_uploaded_image_def Let_def)

subsection \<open>Binary64 rounding\<close>

lemma bit_length_nonneg: "0 \<le> bit_length n"
proof (induction n rule: bit_length.induct)
  case (1 n)
  then show ?case
    by (subst bit_length.simps) auto
qed

lemma bit_length_pos: "0 < n \<Longrightarrow> 0 < bit_length n"
  using bit_length_nonneg [of "n div 2"] by (subst bit_length.simps) simp

lemma bit_length_bounds:
  "0 < n \<Longrightarrow> 2 ^ nat (bit_length n - 1) \<le> n \<and> n < 2 ^ nat (bit_length n)"
proof (induction n rule: bit_length.induct)
  case (1 n)
  show ?case
  proof (cases "n div 2 = 0")
    case True
    with "1.prems" have n1: "n = 1" by presburger
    have "bit_length 1 = 1"
      by (simp add: bit_length.simps [of 1] bit_length.simps [of 0])
    with n1 show ?thesis by simp
  next
    case False
    with "1.prems" have pos: "0 < n div 2" by presburger
    let ?k = "bit_length (n div 2)"
    from "1.IH" [OF _ pos] "1.prems"
    have ih: "2 ^ nat (?k - 1) \<le> n div 2" "n div 2 < 2 ^ nat ?k" by auto
    have kpos: "0 < ?k" using pos by (rule bit_length_pos)
    have bl: "bit_length n = 1 + ?k"
      using "1.prems" by (subst bit_length.simps) simp
    have e1: "nat (bit_length n - 1) = nat ?k" using bl by simp
    have e2: "nat (bit_length n) = Suc (nat ?k)" using bl kpos by simp
    have e3: "nat ?k = Suc (nat (?k - 1))" using kpos by simp
    have lo: "(2::int) ^ nat ?k \<le> n"
    proof -
      have "(2::int) ^ nat ?k = 2 * 2 ^ nat (?k - 1)" by (subst e3) simp
      also have "\<dots> \<le> 2 * (n div 2)" using ih(1) by simp
      also have "\<dots> \<le> n" by presburger
      finally show ?thesis .
    qed
    have hi: "n < 2 ^ Suc (nat ?k)"
    proof -
      have "n div 2 + 1 \<le> 2 ^ nat ?k" using ih(2) by simp
      then have "2 * (n div 2) + 2 \<le> 2 * 2 ^ nat ?k" by simp
      moreover have "n < 2 * (n div 2) + 2" by presburger
      ultimately show ?thesis by simp
    qed
    from lo hi show ?thesis by (simp only: e1 e2) 
  qed
qed

lemma round_half_even_error: "\<bar>of_int (round_half_even x) - x\<bar> \<le> 1 / 2"
proof -
  have "of_int \<lfloor>x\<rfloor> \<le> x" "x < of_int \<lfloor>x\<rfloor> + 1" by linarith+
  then show ?thesis
    by (auto simp add: round_half_even_def Let_def)
qed

lemma round_half_even_of_int [simp]: "round_half_even (of_int n) = n"
  by (simp add: round_half_even_def)

lemma round_half_even_nonneg: "0 \<le> x \<Longrightarrow> 0 \<le> round_half_even x"
  by (auto simp add: round_half_even_def Let_def)

lemma two_powi_pos [simp]: "0 < (2::rat) powi k"
  by (simp add: power_int_def)

lemma two_powi_less_exp: "(2::rat) powi k < 2 powi n \<Longrightarrow> k < n"
proof (rule ccontr)
  assume a: "(2::rat) powi k < 2 powi n" and "\<not> k < n"
  then have "n \<le> k" by simp
  then have "(2::rat) powi n \<le> 2 powi k" by (rule power_int_increasing) simp
  with a show False by simp
qed

lemma ilog2_bounds:
  assumes "0 < x"
  shows "2 powi ilog2 x \<le> x \<and> x < 2 powi (ilog2 x + 1)"
proof -
  obtain p q where pq: "quotient_of x = (p, q)" by (cases "quotient_of x")
  have qpos: "0 < q" using pq quotient_of_denom_pos by blast
  have xeq: "x = of_int p / of_int q" using pq by (rule quotient_of_div)
  have ppos: "0 < p" using assms qpos xeq by (simp add: zero_less_divide_iff)
  let ?a = "bit_length p" and ?b = "bit_length q"
  have a: "0 < ?a" "0 < ?b" using ppos qpos by (simp_all add: bit_length_pos)
  note bp = bit_length_bounds [OF ppos] and bq = bit_length_bounds [OF qpos]
  have plo: "(2::rat) powi (?a - 1) \<le> of_int p"
  proof -
    have "(2::rat) powi (?a - 1) = of_int (2 ^ nat (?a - 1))"
      using a by (simp add: power_int_nonneg_exp)
    also have "\<dots> \<le> of_int p" using bp by (simp only: of_int_le_iff)
    finally show ?thesis .
  qed
  have phi: "of_int p < (2::rat) powi ?a"
  proof -
    have "(of_int p :: rat) < of_int (2 ^ nat ?a)" using bp by (simp only: of_int_less_iff)
    also have "\<dots> = 2 powi ?a" using a by (simp add: power_int_nonneg_exp)
    finally show ?thesis .
  qed
  have qlo: "(2::rat) powi (?b - 1) \<le> of_int q"
  proof -
    have "(2::rat) powi (?b - 1) = of_int (2 ^ nat (?b - 1))"
      using a by (simp add: power_int_nonneg_exp)
    also have "\<dots> \<le> of_int q" using bq by (simp only: of_int_le_iff)
    finally show ?thesis .
  qed
  have qhi: "of_int q < (2::rat) powi ?b"
  proof -
    have "(of_int q :: rat) < of_int (2 ^ nat ?b)" using bq by (simp only: of_int_less_iff)
    also have "\<dots> = 2 powi ?b" using a by (simp add: power_int_nonneg_exp)
    finally show ?thesis .
  qed
  let ?d = "?a - ?b"
  have up: "x < 2 powi (?d + 1)"
  proof -
    have "of_int p / of_int q < (2::rat) powi ?a / 2 powi (?b - 1)"
      using ppos phi qlo by (intro frac_less) simp_all
    also have "\<dots> = 2 powi (?a - (?b - 1))" by (simp add: power_int_diff)
    also have "?a - (?b - 1) = ?d + 1" by simp
    finally show ?thesis using xeq by simp
  qed
  have lo: "2 powi (?d - 1) < x"
  proof -
    have "(2::rat) powi (?a - 1) / 2 powi ?b < of_int p / of_int q"
      using plo qpos qhi by (intro frac_less2) simp_all
    moreover have "(2::rat) powi (?a - 1) / 2 powi ?b = 2 powi (?a - 1 - ?b)" by (simp add: power_int_diff)
    moreover have "?a - 1 - ?b = ?d - 1" by simp
    ultimately show ?thesis using xeq by simp
  qed
  have il: "ilog2 x = (if 2 powi ?d \<le> x then ?d else ?d - 1)"
    by (simp add: ilog2_def pq Let_def)
  show ?thesis
  proof (cases "2 powi ?d \<le> x")
    case True
    with il up show ?thesis by simp
  next
    case False
    with il lo show ?thesis by simp
  qed
qed

lemma ilog2_ge: "0 < x \<Longrightarrow> 2 powi k \<le> x \<Longrightarrow> k \<le> ilog2 x"
proof -
  assume x: "0 < x" and k: "2 powi k \<le> x"
  from ilog2_bounds [OF x] k have "(2::rat) powi k < 2 powi (ilog2 x + 1)" by simp
  then have "k < ilog2 x + 1" by (rule two_powi_less_exp)
  then show ?thesis by simp
qed

lemma ilog2_less: "0 < x \<Longrightarrow> x < 2 powi k \<Longrightarrow> ilog2 x < k"
proof -
  assume x: "0 < x" and k: "x < 2 powi k"
  from ilog2_bounds [OF x] k have "(2::rat) powi ilog2 x < 2 powi k" by simp
  then show ?thesis by (rule two_powi_less_exp)
qed

lemma round_binary64_pos:
  assumes "0 < x" "- 1022 \<le> ilog2 x"
  shows "round_binary64 x = of_int (round_half_even (x / 2 powi (ilog2 x - 52))) * 2 powi (ilog2 x - 52)"
  using assms by (simp add: round_binary64_def Let_def max_def)

lemma round_binary64_error:
  assumes "0 < x" "- 1022 \<le> ilog2 x"
  shows "\<bar>round_binary64 x - x\<bar> \<le> x / 2 ^ 53"
proof -
  let ?e = "ilog2 x"
  let ?u = "(2::rat) powi (?e - 52)"
  let ?k = "round_half_even (x / ?u)"
  have upos: "0 < ?u" by simp
  have "\<bar>of_int ?k * ?u - x\<bar> = \<bar>of_int ?k - x / ?u\<bar> * ?u"
  proof -
    have "of_int ?k * ?u - x = (of_int ?k - x / ?u) * ?u"
      using upos by (simp add: field_simps)
    then show ?thesis using upos by (simp add: abs_mult)
  qed
  also have "\<dots> \<le> (1 / 2) * ?u"
    using round_half_even_error [of "x / ?u"] upos by (intro mult_right_mono) simp_all
  also have "\<dots> = 2 powi ?e / 2 ^ 53"
  proof -
    have "?u = 2 powi ?e / 2 powi 52" by (simp add: power_int_diff)
    then show ?thesis by simp
  qed
  also have "\<dots> \<le> x / 2 ^ 53"
    using ilog2_bounds [OF assms(1)] by (simp add: divide_right_mono)
  finally show ?thesis by (simp add: round_binary64_pos [OF assms])
qed

lemma round_binary64_zero [simp]: "round_binary64 0 = 0"
  by (simp add: round_binary64_def)

lemma round_binary64_nonneg: "0 \<le> x \<Longrightarrow> 0 \<le> round_binary64 x"
  by (auto simp add: round_binary64_def Let_def sgn_if round_half_even_nonneg intro!: mult_nonneg_nonneg)

lemma round_binary64_nonpos: "x \<le> 0 \<Longrightarrow> round_binary64 x \<le> 0"
proof (cases "x = 0")
  case True
  then show ?thesis by simp
next
  case False
  assume "x \<le> 0"
  with False have neg: "x < 0" by simp
  let ?u = "(2::rat) powi (max (ilog2 \<bar>x\<bar>) (- 1022) - 52)"
  have "0 \<le> round_half_even (\<bar>x\<bar> / ?u)"
    by (rule round_half_even_nonneg) simp
  then have "0 \<le> of_int (round_half_even (\<bar>x\<bar> / ?u)) * ?u"
    by (intro mult_nonneg_nonneg) simp_all
  moreover have "round_binary64 x = - (of_int (round_half_even (\<bar>x\<bar> / ?u)) * ?u)"
    using neg False by (simp add: round_binary64_def Let_def)
  ultimately show ?thesis by simp
qed

lemma round_binary64_of_int:
  assumes "0 \<le> n" "n < 2 ^ 53"
  shows "round_binary64 (of_int n) = of_int n"
proof (cases "n = 0")
  case True
  then show ?thesis by simp
next
  case False
  with assms have npos: "0 < n" by simp
  let ?x = "of_int n :: rat"
  have xpos: "0 < ?x" using npos by simp
  have "(2::rat) powi 0 \<le> ?x" using npos by simp
  then have e0: "0 \<le> ilog2 ?x" using xpos by (intro ilog2_ge)
  have "?x < of_int (2 ^ 53)" using assms(2) by (simp only: of_int_less_iff)
  then have "?x < 2 powi 53" by simp
  then have e53: "ilog2 ?x < 53" using xpos by (intro ilog2_less)
  let ?e = "ilog2 ?x"
  let ?k = "nat (52 - ?e)"
  have u: "(2::rat) powi (?e - 52) = 1 / 2 ^ ?k"
  proof -
    have "(2::rat) powi (?e - 52) = 2 powi (- (52 - ?e))" by simp
    also have "\<dots> = 1 / 2 powi (52 - ?e)" by (rule power_int_minus_divide)
    also have "(2::rat) powi (52 - ?e) = 2 ^ ?k"
      using e53 by (intro power_int_nonneg_exp) simp
    finally show ?thesis .
  qed
  have "?x / (2 powi (?e - 52)) = of_int (n * 2 ^ ?k)"
    by (simp add: u)
  then have "round_half_even (?x / (2 powi (?e - 52))) = n * 2 ^ ?k"
    by (simp only: round_half_even_of_int)
  then have "round_binary64 ?x = of_int (n * 2 ^ ?k) * (1 / 2 ^ ?k)"
    using e0 xpos by (simp add: round_binary64_pos u)
  then show ?thesis by simp
qed

lemma two_roundings:
  fixes t P Q u :: rat
  assumes "0 \<le> t" "0 \<le> u" "\<bar>P - t\<bar> \<le> t * u" "\<bar>Q - P\<bar> \<le> P * u"
  shows "\<bar>Q - t\<bar> \<le> t * (2 * u + u * u)"
proof -
  have P: "P \<le> t + t * u" using assms(3) by linarith
  have "P * u \<le> (t + t * u) * u" using P assms(2) by (rule mult_right_mono)
  then have "\<bar>Q - P\<bar> \<le> (t + t * u) * u" using assms(4) by linarith
  then have "\<bar>Q - t\<bar> \<le> (t + t * u) * u + t * u" using assms(3) by linarith
  also have "\<dots> = t * (2 * u + u * u)" by (simp add: algebra_simps)
  finally show ?thesis .
qed

lemma abs_diff_upper:
  fixes r x A :: rat
  assumes "\<bar>r - x\<bar> \<le> A" "A \<le> x / 2" "x < 1"
  shows "r \<le> 2"
  using assms by linarith

lemma half_lower:
  fixes r x c :: rat
  assumes "x / 2 \<le> r" "c \<le> x"
  shows "c / 2 \<le> r"
  using assms by linarith

subsection \<open>The resize arithmetic\<close>

lemma bind_exc_simps [simp]:
  "bind_exc (Inr x) f = f x" "bind_exc (Inl e) f = Inl e"
  by (simp_all add: bind_exc_def)

lemma ratio_rounding:
  assumes "0 < M" "M < m" "m < 2 ^ 31"
  shows "int_truediv M m = Inr (round_binary64 (of_int M / of_int m))"
    and "\<bar>round_binary64 (of_int M / of_int m) - of_int M / of_int m\<bar> \<le> (of_int M / of_int m) / 2 ^ 53"
    and "1 / 2 ^ 32 \<le> round_binary64 (of_int M / of_int m)"
proof -
  let ?x = "of_int M / of_int m :: rat"
  have mpos: "0 < m" using assms by simp
  have xpos: "0 < ?x" using assms mpos by simp
  have xlt: "?x < 1" using assms mpos by simp
  have mr: "(of_int m :: rat) < 2 ^ 31"
  proof -
    have "(of_int m :: rat) < of_int (2 ^ 31)" using assms(3) by (simp only: of_int_less_iff)
    then show ?thesis by simp
  qed
  have lo: "1 / 2 ^ 31 \<le> ?x"
  proof -
    have "1 / 2 ^ 31 \<le> 1 / (of_int m :: rat)"
      using mr mpos by (intro divide_left_mono) simp_all
    also have "\<dots> \<le> ?x" using assms(1) mpos by (intro divide_right_mono) simp_all
    finally show ?thesis .
  qed
  have "(2::rat) powi (- 31) \<le> ?x" using lo by (simp add: power_int_minus_divide)
  then have e: "- 31 \<le> ilog2 ?x" using xpos by (intro ilog2_ge)
  then have e': "- 1022 \<le> ilog2 ?x" by simp
  show err: "\<bar>round_binary64 ?x - ?x\<bar> \<le> ?x / 2 ^ 53"
    using xpos e' by (rule round_binary64_error)
  have half: "?x / 2 ^ 53 \<le> ?x / 2" using xpos by (intro divide_left_mono) simp_all
  have b1: "?x / 2 \<le> round_binary64 ?x" using err half by linarith
  have b2: "round_binary64 ?x \<le> 2" using err half xlt by (rule abs_diff_upper)
  note b = b1 b2
  have "1 / 2 ^ 31 / 2 \<le> round_binary64 ?x" using b1 lo by (rule half_lower)
  then show "1 / 2 ^ 32 \<le> round_binary64 ?x" by simp
  have "\<not> overflows (round_binary64 ?x)"
    using b xpos by (simp add: overflows_def abs_if)
  then show "int_truediv M m = Inr (round_binary64 ?x)"
    using mpos by (simp add: int_truediv_def Let_def)
qed

lemma scaled_dimension:
  assumes "0 < M" "M < m" "m < 2 ^ 31" "0 \<le> w" "w \<le> m"
  shows "bind_exc (int_mul_float w (round_binary64 (of_int M / of_int m))) int_of_float
           = Inr \<lfloor>round_binary64 (of_int w * round_binary64 (of_int M / of_int m))\<rfloor>"
    and "\<bar>round_binary64 (of_int w * round_binary64 (of_int M / of_int m)) - of_int (w * M) / of_int m\<bar>
           \<le> (of_int (w * M) / of_int m) * (2 * (1 / 2 ^ 53) + (1 / 2 ^ 53) * (1 / 2 ^ 53))"
proof -
  let ?x = "of_int M / of_int m :: rat"
  let ?r = "round_binary64 ?x"
  let ?P = "of_int w * ?r"
  let ?Q = "round_binary64 ?P"
  let ?t = "of_int (w * M) / of_int m :: rat"
  let ?u = "1 / 2 ^ 53 :: rat"
  note rr = ratio_rounding [OF assms(1-3)]
  have mpos: "0 < m" using assms by simp
  have rpos: "0 < ?r" using rr(3) by (rule less_le_trans [rotated]) simp
  have tnn: "0 \<le> ?t" using assms mpos by simp
  have tM: "?t \<le> of_int M"
  proof -
    have "w * M \<le> m * M" using assms by (intro mult_right_mono) simp_all
    then have "(of_int (w * M) :: rat) \<le> of_int (m * M)" by (simp only: of_int_le_iff)
    then have "?t \<le> of_int (m * M) / of_int m" using mpos by (intro divide_right_mono) simp_all
    then show ?thesis using mpos by simp
  qed
  have Mr: "(of_int M :: rat) < 2 ^ 31"
  proof -
    have "M < 2 ^ 31" using assms by simp
    then have "(of_int M :: rat) < of_int (2 ^ 31)" by (simp only: of_int_less_iff)
    then show ?thesis by simp
  qed
  have w53: "w < 2 ^ 53" using assms by simp
  have fw: "round_binary64 (of_int w) = of_int w"
    using assms(4) w53 by (rule round_binary64_of_int)
  have wr: "(of_int w :: rat) < 2 ^ 31"
  proof -
    have "w < 2 ^ 31" using assms by simp
    then have "(of_int w :: rat) < of_int (2 ^ 31)" by (simp only: of_int_less_iff)
    then show ?thesis by simp
  qed
  have foi: "float_of_int w = Inr (of_int w)"
    using wr assms(4) by (simp add: float_of_int_def fw overflows_def Let_def abs_if)
  have Pt: "\<bar>?P - ?t\<bar> \<le> ?t * ?u"
  proof -
    have "?P - ?t = of_int w * (?r - ?x)" by (simp add: algebra_simps)
    then have "\<bar>?P - ?t\<bar> = of_int w * \<bar>?r - ?x\<bar>" using assms(4) by (simp add: abs_mult)
    also have "\<dots> \<le> of_int w * (?x / 2 ^ 53)"
      using rr(2) assms(4) by (intro mult_left_mono) simp_all
    also have "\<dots> = ?t * ?u" by simp
    finally show ?thesis .
  qed
  have QP: "\<bar>?Q - ?P\<bar> \<le> ?P * ?u"
  proof (cases "w = 0")
    case True
    then show ?thesis by simp
  next
    case False
    with assms(4) have w1: "1 \<le> w" by simp
    then have "(1::rat) \<le> of_int w" by simp
    then have "1 * ?r \<le> ?P" using rpos by (intro mult_right_mono) simp_all
    then have Plo: "1 / 2 ^ 32 \<le> ?P" using rr(3) by linarith
    then have Ppos: "0 < ?P" by (rule less_le_trans [rotated]) simp
    have "(2::rat) powi (- 32) \<le> ?P" using Plo by (simp add: power_int_minus_divide)
    then have "- 32 \<le> ilog2 ?P" using Ppos by (intro ilog2_ge)
    then have "- 1022 \<le> ilog2 ?P" by simp
    with Ppos have "\<bar>?Q - ?P\<bar> \<le> ?P / 2 ^ 53" by (rule round_binary64_error)
    then show ?thesis by simp
  qed
  show Qt: "\<bar>?Q - ?t\<bar> \<le> ?t * (2 * ?u + ?u * ?u)"
    using tnn _ Pt QP by (rule two_roundings) simp
  have "0 \<le> ?P" using assms(4) rpos by simp
  then have Qnn: "0 \<le> ?Q" by (rule round_binary64_nonneg)
  have "?t * (2 * ?u + ?u * ?u) \<le> of_int M * (2 * ?u + ?u * ?u)"
    using tM by (intro mult_right_mono) simp_all
  also have "\<dots> < 2 ^ 31 * (2 * ?u + ?u * ?u)"
    using Mr by (intro mult_strict_right_mono) simp_all
  also have "\<dots> \<le> 1" by simp
  finally have small: "?t * (2 * ?u + ?u * ?u) < 1" .
  have "?Q < of_int M + 1" using Qt small tM by linarith
  then have "?Q < 2 ^ 31 + 1" using Mr by linarith
  then have "\<not> overflows ?Q" using Qnn by (simp add: overflows_def abs_if)
  then have "float_mul (of_int w) ?r = Finite ?Q"
    by (simp add: float_mul_def Let_def)
  then show "bind_exc (int_mul_float w ?r) int_of_float = Inr \<lfloor>?Q\<rfloor>"
    using Qnn by (simp add: int_mul_float_def foi bind_exc_def)
qed

lemma floor_within:
  fixes Q t e :: rat
  assumes "\<bar>Q - t\<bar> \<le> e" "e < 1" "t \<le> of_int M"
  shows "\<lfloor>Q\<rfloor> \<le> M"
proof -
  have "Q < of_int (M + 1)" using assms by simp
  then have "\<lfloor>Q\<rfloor> < M + 1" by (simp only: floor_less_iff)
  then show ?thesis by simp
qed

lemma floor_within_exact:
  fixes Q e :: rat
  assumes "\<bar>Q - of_int M\<bar> \<le> e" "e < 1"
  shows "M - 1 \<le> \<lfloor>Q\<rfloor>"
proof -
  have "of_int (M - 1) \<le> Q" using assms by simp
  then show ?thesis by (simp only: le_floor_iff)
qed

lemma floor_of_quotient:
  fixes Q e :: rat and a m :: int
  assumes m: "0 < m" and err: "\<bar>Q - of_int a / of_int m\<bar> \<le> e" and small: "e * of_int m < 1"
  shows "\<lfloor>Q\<rfloor> = a div m \<or> (m dvd a \<and> \<lfloor>Q\<rfloor> = a div m - 1)"
proof -
  let ?k = "a div m" and ?r = "a mod m"
  have mr: "0 < (of_int m :: rat)" using m by simp
  have e_lt: "e < 1 / of_int m" using small mr by (simp add: field_simps)
  have one: "1 / of_int m \<le> (1::rat)" using m by simp
  have t: "of_int a / of_int m = of_int ?k + of_int ?r / (of_int m :: rat)"
  proof -
    have "a = ?k * m + ?r" by simp
    then have "(of_int a :: rat) = of_int ?k * of_int m + of_int ?r"
      by (metis of_int_add of_int_mult)
    then show ?thesis using mr by (simp add: field_simps)
  qed
  show ?thesis
  proof (cases "?r = 0")
    case True
    then have d: "m dvd a" by (simp add: dvd_eq_mod_eq_0)
    from True t have "of_int a / of_int m = (of_int ?k :: rat)" by simp
    with err have b: "\<bar>Q - of_int ?k\<bar> \<le> e" by simp
    have e1: "e < 1" using e_lt one by linarith
    have "of_int (?k - 1) \<le> Q" using b e1 by simp
    then have lo: "?k - 1 \<le> \<lfloor>Q\<rfloor>" by (simp only: le_floor_iff)
    have "Q < of_int (?k + 1)" using b e1 by simp
    then have "\<lfloor>Q\<rfloor> < ?k + 1" by (simp only: floor_less_iff)
    with lo d show ?thesis by auto
  next
    case False
    have r0: "0 \<le> ?r" "?r < m" using m by simp_all
    with False have r1: "1 \<le> ?r" "?r \<le> m - 1" by simp_all
    have lo_r: "1 / of_int m \<le> of_int ?r / (of_int m :: rat)"
      using r1(1) mr by (intro divide_right_mono) simp_all
    have hi_r: "of_int ?r / (of_int m :: rat) \<le> 1 - 1 / of_int m"
    proof -
      have "(of_int ?r :: rat) \<le> of_int (m - 1)" using r1(2) by (simp only: of_int_le_iff)
      then have "of_int ?r / (of_int m :: rat) \<le> of_int (m - 1) / of_int m"
        using mr by (intro divide_right_mono) simp_all
      also have "\<dots> = 1 - 1 / of_int m" using mr by (simp add: field_simps)
      finally show ?thesis .
    qed
    have "of_int ?k \<le> Q" using err t lo_r e_lt by linarith
    moreover have "Q < of_int ?k + 1" using err t hi_r e_lt by linarith
    ultimately have "\<lfloor>Q\<rfloor> = ?k" by (rule floor_unique)
    then show ?thesis by simp
  qed
qed

lemma scaled_dimension_props:
  assumes "0 < M" "M < m" "m < 2 ^ 31" "0 \<le> w" "w \<le> m"
  shows "0 \<le> \<lfloor>round_binary64 (of_int w * round_binary64 (of_int M / of_int m))\<rfloor>"
    and "\<lfloor>round_binary64 (of_int w * round_binary64 (of_int M / of_int m))\<rfloor> \<le> M"
    and "w = m \<Longrightarrow> M - 1 \<le> \<lfloor>round_binary64 (of_int w * round_binary64 (of_int M / of_int m))\<rfloor>"
    and "m < 2 ^ 25 \<Longrightarrow>
           \<lfloor>round_binary64 (of_int w * round_binary64 (of_int M / of_int m))\<rfloor> = (w * M) div m
           \<or> (m dvd w * M \<and>
               \<lfloor>round_binary64 (of_int w * round_binary64 (of_int M / of_int m))\<rfloor> = (w * M) div m - 1)"
proof -
  let ?Q = "round_binary64 (of_int w * round_binary64 (of_int M / of_int m))"
  let ?t = "of_int (w * M) / of_int m :: rat"
  let ?eta = "2 * (1 / 2 ^ 53) + (1 / 2 ^ 53) * (1 / 2 ^ 53) :: rat"
  have err: "\<bar>?Q - ?t\<bar> \<le> ?t * ?eta" using assms by (rule scaled_dimension(2))
  have mpos: "0 < m" using assms by simp
  have mr: "0 < (of_int m :: rat)" using mpos by simp
  have rpos: "0 < round_binary64 (of_int M / of_int m)"
    using ratio_rounding(3) [OF assms(1-3)] by (rule less_le_trans [rotated]) simp
  have "0 \<le> of_int w * round_binary64 (of_int M / of_int m)" using assms(4) rpos by simp
  then have "0 \<le> ?Q" by (rule round_binary64_nonneg)
  then show "0 \<le> \<lfloor>?Q\<rfloor>" by simp
  have tM: "?t \<le> of_int M"
  proof -
    have "w * M \<le> m * M" using assms by (intro mult_right_mono) simp_all
    then have "(of_int (w * M) :: rat) \<le> of_int (m * M)" by (simp only: of_int_le_iff)
    then have "?t \<le> of_int (m * M) / of_int m" using mpos by (intro divide_right_mono) simp_all
    then show ?thesis using mpos by simp
  qed
  have Mr: "(of_int M :: rat) < 2 ^ 31"
  proof -
    have "M < 2 ^ 31" using assms by simp
    then have "(of_int M :: rat) < of_int (2 ^ 31)" by (simp only: of_int_less_iff)
    then show ?thesis by simp
  qed
  have "?t * ?eta \<le> of_int M * ?eta" using tM by (intro mult_right_mono) simp_all
  also have "\<dots> < 2 ^ 31 * ?eta" using Mr by (intro mult_strict_right_mono) simp_all
  also have "\<dots> \<le> 1" by simp
  finally have small: "?t * ?eta < 1" .
  show "\<lfloor>?Q\<rfloor> \<le> M" using err small tM by (rule floor_within)
  show "M - 1 \<le> \<lfloor>?Q\<rfloor>" if "w = m"
  proof -
    have teq: "?t = of_int M" using that mpos by simp
    have "\<bar>?Q - of_int M\<bar> \<le> of_int M * ?eta" using err by (simp only: teq)
    moreover have "of_int M * ?eta < 1" using small by (simp only: teq)
    ultimately show ?thesis by (rule floor_within_exact)
  qed
  show "\<lfloor>?Q\<rfloor> = (w * M) div m \<or> (m dvd w * M \<and> \<lfloor>?Q\<rfloor> = (w * M) div m - 1)" if "m < 2 ^ 25"
  proof -
    have "w * M \<le> m * M" using assms by (intro mult_right_mono) simp_all
    also have "\<dots> \<le> 2 ^ 25 * M" using that assms(1) by (intro mult_right_mono) simp_all
    also have "\<dots> < 2 ^ 25 * 2 ^ 25" using that assms(2) by (intro mult_strict_left_mono) simp_all
    finally have "w * M < 2 ^ 50" by simp
    then have "(of_int (w * M) :: rat) < of_int (2 ^ 50)" by (simp only: of_int_less_iff)
    then have wm: "(of_int (w * M) :: rat) < 2 ^ 50" by simp
    have "?t * ?eta * of_int m = of_int (w * M) * ?eta" using mr by simp
    also have "\<dots> < 2 ^ 50 * ?eta" using wm by (intro mult_strict_right_mono) simp_all
    also have "\<dots> \<le> 1" by simp
    finally have "?t * ?eta * of_int m < 1" .
    with mpos err show ?thesis by (rule floor_of_quotient)
  qed
qed

lemma truediv_nonpos:
  assumes "M \<le> 0" "0 < m" "int_truediv M m = Inr r"
  shows "r \<le> 0"
proof -
  have "of_int M / of_int m \<le> (0::rat)" using assms(1,2) by (simp add: divide_le_0_iff)
  then have "round_binary64 (of_int M / of_int m) \<le> 0" by (rule round_binary64_nonpos)
  moreover have "r = round_binary64 (of_int M / of_int m)"
    using assms(2,3) by (simp add: int_truediv_def Let_def split: if_splits)
  ultimately show ?thesis by simp
qed

lemma nonpos_scaled:
  assumes "r \<le> 0" "0 \<le> w" "bind_exc (int_mul_float w r) int_of_float = Inr d"
  shows "d \<le> 0"
proof -
  let ?y = "round_binary64 (of_int w)"
  let ?q = "round_binary64 (?y * r)"
  have y: "0 \<le> ?y" using assms(2) by (intro round_binary64_nonneg) simp
  then have "?y * r \<le> 0" using assms(1) by (simp add: mult_nonneg_nonpos)
  then have q: "?q \<le> 0" by (rule round_binary64_nonpos)
  have "d = (if 0 \<le> ?q then \<lfloor>?q\<rfloor> else \<lceil>?q\<rceil>)"
    using assms(3)
    by (simp add: int_mul_float_def float_of_int_def float_mul_def Let_def split: if_splits)
  moreover have "\<lfloor>?q\<rfloor> \<le> 0" using q by (simp add: floor_le_zero)
  moreover have "\<lceil>?q\<rceil> \<le> 0" using q by (simp add: ceiling_le_zero)
  ultimately show ?thesis by simp
qed

subsection \<open>ImagePreprocessor\<close>

lemma sample_image_sel [simp]:
  "width (sample_image w h m) = w" "height (sample_image w h m) = h"
  "mode (sample_image w h m) = m" "pixels (sample_image w h m) = File_data []"
  by (simp_all add: sample_image_def)

lemma load_sample_pillow [simp]: "load sample_pillow im = None"
  by (simp add: load_def sample_pillow_def split: pixels.splits)

lemma max_near:
  fixes a b M :: int
  assumes "M - 1 \<le> a" "a \<le> M" "b \<le> M"
  shows "max a b = M \<or> max a b = M - 1" and "max b a = M \<or> max b a = M - 1"
  using assms by (auto simp add: max_def)

lemma convert_Inr:
  assumes "convert pl im m = Inr im1"
  shows "width im1 = width im" and "height im1 = height im" and "mode im1 = m"
  using assms by (auto simp add: convert_def split: option.splits if_splits)

lemma rgb_step_Inr:
  assumes "(if mode im \<noteq> ''RGB'' then convert pl im ''RGB'' else Inr im) = Inr im1"
  shows "width im1 = width im" and "height im1 = height im" and "mode im1 = ''RGB''"
  using assms convert_Inr [of pl im "''RGB''" im1] by (auto split: if_splits)

lemma resize_Inr:
  assumes "resize pl im (nw, nh) = Inr im'"
  shows "mode im' = mode im" and "width im' = nw" and "height im' = nh"
  using assms
  by (auto simp add: resize_def c_int_def bind_exc_def split: option.splits if_splits sum.splits)

lemma prepare_unfold:
  "prepare_image_for_api pl im M =
     bind_exc (if mode im \<noteq> ''RGB'' then convert pl im ''RGB'' else Inr im) (\<lambda>image1.
       if max (width image1) (height image1) > M then
            bind_exc (int_truediv M (max (width image1) (height image1))) (\<lambda>ratio.
            bind_exc (bind_exc (int_mul_float (width image1) ratio) int_of_float) (\<lambda>new_width.
            bind_exc (bind_exc (int_mul_float (height image1) ratio) int_of_float) (\<lambda>new_height.
            resize pl image1 (new_width, new_height))))
          else Inr image1)"
  by (simp add: prepare_image_for_api_def Let_def)

lemma prepare_cases:
  obtains (raised) e where "(if mode im \<noteq> ''RGB'' then convert pl im ''RGB'' else Inr im) = Inl e"
                       and "prepare_image_for_api pl im M = Inl e"
  | (rgb) image1 where "(if mode im \<noteq> ''RGB'' then convert pl im ''RGB'' else Inr im) = Inr image1"
      and "width image1 = width im" and "height image1 = height im" and "mode image1 = ''RGB''"
      and "prepare_image_for_api pl im M =
            (if max (width im) (height im) > M then
               bind_exc (int_truediv M (max (width im) (height im))) (\<lambda>ratio.
               bind_exc (bind_exc (int_mul_float (width im) ratio) int_of_float) (\<lambda>new_width.
               bind_exc (bind_exc (int_mul_float (height im) ratio) int_of_float) (\<lambda>new_height.
               resize pl image1 (new_width, new_height))))
             else Inr image1)"
proof (cases "if mode im \<noteq> ''RGB'' then convert pl im ''RGB'' else Inr im")
  case (Inl e)
  then have "prepare_image_for_api pl im M = Inl e"
    by (simp only: prepare_unfold bind_exc_simps)
  with Inl show ?thesis by (rule raised)
next
  case (Inr image1)
  note d = rgb_step_Inr [OF Inr]
  have "prepare_image_for_api pl im M =
            (if max (width im) (height im) > M then
               bind_exc (int_truediv M (max (width im) (height im))) (\<lambda>ratio.
               bind_exc (bind_exc (int_mul_float (width im) ratio) int_of_float) (\<lambda>new_width.
               bind_exc (bind_exc (int_mul_float (height im) ratio) int_of_float) (\<lambda>new_height.
               resize pl image1 (new_width, new_height))))
             else Inr image1)"
    by (simp only: prepare_unfold Inr bind_exc_simps d)
  with Inr d show ?thesis by (rule rgb)
qed

lemma prepare_small_rgb:
  "mode im = ''RGB'' \<Longrightarrow> max (width im) (height im) \<le> m \<Longrightarrow> prepare_image_for_api pl im m = Inr im"
  by (auto simp add: prepare_unfold less_max_iff_disj)

lemma prepare_resize_branch:
  assumes "0 \<le> width im" "0 \<le> height im" "width im < 2 ^ 31" "height im < 2 ^ 31"
      and "0 < M" "M < max (width im) (height im)"
  shows "prepare_image_for_api pl im M =
           bind_exc (if mode im \<noteq> ''RGB'' then convert pl im ''RGB'' else Inr im) (\<lambda>image1.
             resize pl image1
               (\<lfloor>round_binary64 (of_int (width im) * round_binary64 (of_int M / of_int (max (width im) (height im))))\<rfloor>,
                \<lfloor>round_binary64 (of_int (height im) * round_binary64 (of_int M / of_int (max (width im) (height im))))\<rfloor>))"
proof -
  let ?m = "max (width im) (height im)"
  have m31: "?m < 2 ^ 31" using assms by simp
  have wm: "width im \<le> ?m" and hm: "height im \<le> ?m" by simp_all
  note r = ratio_rounding(1) [OF assms(5) assms(6) m31]
  note w = scaled_dimension(1) [OF assms(5) assms(6) m31 assms(1) wm]
  note h = scaled_dimension(1) [OF assms(5) assms(6) m31 assms(2) hm]
  show ?thesis
  proof (cases rule: prepare_cases [of im pl M])
    case (raised e)
    then show ?thesis by simp
  next
    case (rgb image1)
    then show ?thesis using assms(6) by (simp add: r w h)
  qed
qed

lemma prepare_result:
  assumes "well_formed im" "prepare_image_for_api pl im M = Inr im'"
  shows "mode im' = ''RGB'' \<and> max (width im') (height im') \<le> M"
proof (cases rule: prepare_cases [of im pl M])
  case (raised e)
  with assms(2) show ?thesis by simp
next
  case (rgb image1)
  let ?m = "max (width im) (height im)"
  from assms(1) have v: "0 \<le> width im" "0 \<le> height im" "width im < 2 ^ 31" "height im < 2 ^ 31"
    by (simp_all add: well_formed_def)
  consider (keep) "?m \<le> M" | (down) "M < ?m" "0 < M" | (bad) "M < ?m" "M \<le> 0" by linarith
  then show ?thesis
  proof cases
    case keep
    then have "prepare_image_for_api pl im M = Inr image1"
      using rgb(5) by (auto simp add: less_max_iff_disj)
    with assms(2) have "im' = image1" by simp
    with keep rgb show ?thesis by simp
  next
    case down
    define nw where "nw = \<lfloor>round_binary64 (of_int (width im) * round_binary64 (of_int M / of_int ?m))\<rfloor>"
    define nh where "nh = \<lfloor>round_binary64 (of_int (height im) * round_binary64 (of_int M / of_int ?m))\<rfloor>"
    have m31: "?m < 2 ^ 31" using v by simp
    have wm: "width im \<le> ?m" and hm: "height im \<le> ?m" by simp_all
    have nwM: "nw \<le> M" unfolding nw_def by (rule scaled_dimension_props(2) [OF down(2) down(1) m31 v(1) wm])
    have nhM: "nh \<le> M" unfolding nh_def by (rule scaled_dimension_props(2) [OF down(2) down(1) m31 v(2) hm])
    have "prepare_image_for_api pl im M = resize pl image1 (nw, nh)"
      unfolding nw_def nh_def
      by (simp only: prepare_resize_branch [OF v down(2) down(1)] rgb(1) bind_exc_simps)
    with assms(2) have "resize pl image1 (nw, nh) = Inr im'" by simp
    from resize_Inr [OF this] rgb(4) nwM nhM show ?thesis by simp
  next
    case bad
    show ?thesis
    proof (cases "?m = 0")
      case True
      with bad rgb(5) have "prepare_image_for_api pl im M = Inl (ZeroDivisionError ''division by zero'')"
        by (simp add: int_truediv_def)
      with assms(2) show ?thesis by simp
    next
      case False
      with v have mpos: "0 < ?m" by simp
      from assms(2) bad(1) rgb(5) obtain r nw nh where
        r: "int_truediv M ?m = Inr r"
        and nw: "bind_exc (int_mul_float (width im) r) int_of_float = Inr nw"
        and nh: "bind_exc (int_mul_float (height im) r) int_of_float = Inr nh"
        and rs: "resize pl image1 (nw, nh) = Inr im'"
        by (auto simp add: bind_exc_def split: sum.splits)
      have "r \<le> 0" using bad(2) mpos r by (rule truediv_nonpos)
      then have "nw \<le> 0" "nh \<le> 0" using v nw nh by (auto intro: nonpos_scaled)
      moreover have "(nw, nh) \<noteq> (width image1, height image1)"
        using calculation mpos rgb(2,3) v by auto
      ultimately have False using rs
        by (auto simp add: resize_def c_int_def bind_exc_def split: option.splits if_splits)
      then show ?thesis ..
    qed
  qed
qed

lemma truncation_bounds:
  fixes a m d :: int
  assumes "0 < m" "d = a div m \<or> (m dvd a \<and> d = a div m - 1)"
  shows "of_int a / of_int m - 1 \<le> (of_int d :: rat) \<and> (of_int d :: rat) \<le> of_int a / of_int m"
proof -
  let ?t = "of_int a / of_int m :: rat"
  have fl: "\<lfloor>?t\<rfloor> = a div m" by (rule floor_divide_of_int_eq)
  have lo: "of_int (a div m) \<le> ?t" using of_int_floor_le [of ?t] by (simp only: fl)
  have hi: "?t < of_int (a div m) + 1" using floor_correct [of ?t] by (simp only: fl) simp
  from assms(2) show ?thesis
  proof
    assume "d = a div m"
    with lo hi show ?thesis by simp
  next
    assume h: "m dvd a \<and> d = a div m - 1"
    then have "a = m * (a div m)" by simp
    then have "(of_int a :: rat) = of_int m * of_int (a div m)" by (metis of_int_mult)
    then have "?t = of_int (a div m)" using assms(1) by simp
    with h show ?thesis by simp
  qed
qed

lemma prepare_dims:
  assumes "0 \<le> width im" "0 \<le> height im" "width im < 2 ^ 31" "height im < 2 ^ 31"
      and "0 < M" "M < max (width im) (height im)"
      and "prepare_image_for_api pl im M = Inr im'"
  shows "width im' = \<lfloor>round_binary64 (of_int (width im) * round_binary64 (of_int M / of_int (max (width im) (height im))))\<rfloor>"
    and "height im' = \<lfloor>round_binary64 (of_int (height im) * round_binary64 (of_int M / of_int (max (width im) (height im))))\<rfloor>"
    and "mode im' = ''RGB''"
proof -
  let ?nw = "\<lfloor>round_binary64 (of_int (width im) * round_binary64 (of_int M / of_int (max (width im) (height im))))\<rfloor>"
  let ?nh = "\<lfloor>round_binary64 (of_int (height im) * round_binary64 (of_int M / of_int (max (width im) (height im))))\<rfloor>"
  have "width im' = ?nw \<and> height im' = ?nh \<and> mode im' = ''RGB''"
  proof (cases rule: prepare_cases [of im pl M])
    case (raised e)
    with assms(7) show ?thesis by simp
  next
    case (rgb image1)
    have "prepare_image_for_api pl im M = resize pl image1 (?nw, ?nh)"
      by (simp only: prepare_resize_branch [OF assms(1-6)] rgb(1) bind_exc_simps)
    with assms(7) have "resize pl image1 (?nw, ?nh) = Inr im'" by simp
    from resize_Inr [OF this] rgb(4) show ?thesis by simp
  qed
  then show "width im' = ?nw" and "height im' = ?nh" and "mode im' = ''RGB''" by simp_all
qed

text \<open>
  C2, as stated, fails: a 1122x105 image prepared with the default maximum 1024 comes out
  1023x95. The larger dimension is not 1024 (the float product 1122 * (1024 / 1122) is
  just below 1024 and \<open>int\<close> truncates), and the height is the truncation 95 of
  95.83, not the nearest integer 96.
\<close>

theorem prepare_1122x105:
  "prepare_image_for_api sample_pillow (sample_image 1122 105 ''RGB'') 1024
     = Inr \<lparr>width = 1023, height = 95, mode = ''RGB'', pixels = Lanczos 1023 95 (File_data [])\<rparr>
   \<and> max (1023::int) 95 \<noteq> 1024
   \<and> (95::rat) + 1 / 2 < 105 * 1024 / 1122"
proof -
  have r: "round_binary64 (of_int (1024::int) / of_int (max (1122::int) 105))
             = 2055118546536269 / 2251799813685248"
    by code_simp
  have a: "\<lfloor>round_binary64 (of_int (1122::int) * (2055118546536269 / 2251799813685248))\<rfloor> = 1023"
    by code_simp
  have b: "\<lfloor>round_binary64 (of_int (105::int) * (2055118546536269 / 2251799813685248))\<rfloor> = 95"
    by code_simp
  have "prepare_image_for_api sample_pillow (sample_image 1122 105 ''RGB'') 1024
          = resize sample_pillow (sample_image 1122 105 ''RGB'') (1023, 95)"
    using prepare_resize_branch [of "sample_image 1122 105 ''RGB''" 1024 sample_pillow]
    by (simp only: sample_image_sel r a b) simp
  moreover have "(95::rat) + 1 / 2 < 105 * 1024 / 1122"
    by simp
  ultimately show ?thesis
    by (simp add: resize_def c_int_def sample_image_def)
qed

text \<open>
  C2, amended. Take an image with dimensions in \<open>[0, 2^25)\<close> whose larger dimension
  \<open>m\<close> exceeds a positive \<open>max_size\<close>. Whenever \<open>_prepare_image_for_api\<close> returns an
  image, its larger dimension is at most \<open>max_size\<close>, and both dimensions are scaled by
  the one ratio \<open>max_size / m\<close> and truncated to an integer instead of rounded to the
  nearest: each returned dimension \<open>d\<close> satisfies
  \<open>dim * max_size / m - 1 \<le> d \<le> dim * max_size / m\<close>, so the aspect ratio is kept
  within one pixel of exact rounding.
\<close>

theorem prepare_downscales:
  assumes "0 \<le> width im" "0 \<le> height im" "width im < 2 ^ 25" "height im < 2 ^ 25"
      and "0 < M" "M < max (width im) (height im)"
      and "prepare_image_for_api pl im M = Inr im'"
  shows "of_int (width im * M) / of_int (max (width im) (height im)) - 1 \<le> (of_int (width im') :: rat)
       \<and> (of_int (width im') :: rat) \<le> of_int (width im * M) / of_int (max (width im) (height im))
       \<and> of_int (height im * M) / of_int (max (width im) (height im)) - 1 \<le> (of_int (height im') :: rat)
       \<and> (of_int (height im') :: rat) \<le> of_int (height im * M) / of_int (max (width im) (height im))
       \<and> max (width im') (height im') \<le> M"
proof -
  let ?m = "max (width im) (height im)"
  have m25: "?m < 2 ^ 25" using assms by simp
  then have m31: "?m < 2 ^ 31" by simp
  have mpos: "0 < ?m" using assms(5,6) by simp
  have w31: "width im < 2 ^ 31" and h31: "height im < 2 ^ 31" using assms by simp_all
  have wm: "width im \<le> ?m" and hm: "height im \<le> ?m" by simp_all
  note d = prepare_dims [OF assms(1) assms(2) w31 h31 assms(5) assms(6) assms(7)]
  note pw = scaled_dimension_props [OF assms(5) assms(6) m31 assms(1) wm, folded d(1)]
  note ph = scaled_dimension_props [OF assms(5) assms(6) m31 assms(2) hm, folded d(2)]
  have bw: "of_int (width im * M) / of_int ?m - 1 \<le> (of_int (width im') :: rat)
            \<and> (of_int (width im') :: rat) \<le> of_int (width im * M) / of_int ?m"
    using mpos pw(4) [OF m25] by (rule truncation_bounds)
  have bh: "of_int (height im * M) / of_int ?m - 1 \<le> (of_int (height im') :: rat)
            \<and> (of_int (height im') :: rat) \<le> of_int (height im * M) / of_int ?m"
    using mpos ph(4) [OF m25] by (rule truncation_bounds)
  have mx: "max (width im') (height im') \<le> M" using pw(2) ph(2) by simp
  from bw bh mx show ?thesis by blast
qed

lemma prepare_4096x1003:
  "prepare_image_for_api sample_pillow (sample_image 4096 1003 ''RGBA'') 1024
     = Inr \<lparr>width = 1024, height = 250, mode = ''RGB'',
            pixels = Lanczos 1024 250 (Converted ''RGB'' (File_data []))\<rparr>"
proof -
  have r: "round_binary64 (of_int (1024::int) / of_int (max (4096::int) 1003)) = 1 / 4"
    by code_simp
  have a: "\<lfloor>round_binary64 (of_int (4096::int) * (1 / 4))\<rfloor> = 1024"
    by code_simp
  have b: "\<lfloor>round_binary64 (of_int (1003::int) * (1 / 4))\<rfloor> = 250"
    by code_simp
  have c: "convert sample_pillow (sample_image 4096 1003 ''RGBA'') ''RGB''
             = Inr \<lparr>width = 4096, height = 1003, mode = ''RGB'', pixels = Converted ''RGB'' (File_data [])\<rparr>"
    by (simp add: convert_def load_def sample_pillow_def sample_image_def)
  have "prepare_image_for_api sample_pillow (sample_image 4096 1003 ''RGBA'') 1024
          = resize sample_pillow \<lparr>width = 4096, height = 1003, mode = ''RGB'', pixels = Converted ''RGB'' (File_data [])\<rparr> (1024, 250)"
    using prepare_resize_branch [of "sample_image 4096 1003 ''RGBA''" 1024 sample_pillow]
    by (simp only: sample_image_sel r a b) (simp add: c)
  then show ?thesis
    by (simp add: resize_def c_int_def)
qed

theorem prepare_downscales_witness:
  "0 \<le> width (sample_image 4096 1003 ''RGBA'') \<and> 0 \<le> height (sample_image 4096 1003 ''RGBA'')
   \<and> width (sample_image 4096 1003 ''RGBA'') < 2 ^ 25 \<and> height (sample_image 4096 1003 ''RGBA'') < 2 ^ 25
   \<and> (0::int) < 1024
   \<and> 1024 < max (width (sample_image 4096 1003 ''RGBA'')) (height (sample_image 4096 1003 ''RGBA''))
   \<and> prepare_image_for_api sample_pillow (sample_image 4096 1003 ''RGBA'') 1024
        = Inr \<lparr>width = 1024, height = 250, mode = ''RGB'',
               pixels = Lanczos 1024 250 (Converted ''RGB'' (File_data []))\<rparr>
   \<and> (4096 * 1024 / 4096 - 1 \<le> (1024::rat) \<and> (1024::rat) \<le> 4096 * 1024 / 4096)
   \<and> (1003 * 1024 / 4096 - 1 \<le> (250::rat) \<and> (250::rat) \<le> 1003 * 1024 / 4096)
   \<and> max (1024::int) 250 \<le> 1024"
proof -
  let ?im = "sample_image 4096 1003 ''RGBA''"
  have h: "0 \<le> width ?im" "0 \<le> height ?im" "width ?im < 2 ^ 25" "height ?im < 2 ^ 25"
    "(0::int) < 1024" "1024 < max (width ?im) (height ?im)"
    by simp_all
  from prepare_downscales [OF h prepare_4096x1003]
  show ?thesis using h prepare_4096x1003 by simp
qed

text \<open>
  C9. A 200000x100 image is accepted by \<open>validate_uploaded_image\<close> as a face image, and
  preparing it with the default maximum 1024 asks \<open>resize\<close> for the size (1024, 0): the
  height \<open>int(100 * (1024 / 200000))\<close> is 0, and \<open>resize\<close> raises \<open>ValueError\<close>.
\<close>

theorem prepare_200000x100_raises:
  "validate_uploaded_image (\<lambda>b. Inr (sample_image 200000 100 ''RGB'')) (Some sample_upload) ''face''
     = (True, ''Face image uploaded successfully'', Some (sample_image 200000 100 ''RGB''))
   \<and> prepare_image_for_api sample_pillow (sample_image 200000 100 ''RGB'') 1024
     = Inl (ValueError ''height and width must be > 0'')"
proof -
  have r: "round_binary64 (of_int (1024::int) / of_int (max (200000::int) 100))
             = 5902958103587057 / 1152921504606846976"
    by code_simp
  have a: "\<lfloor>round_binary64 (of_int (200000::int) * (5902958103587057 / 1152921504606846976))\<rfloor> = 1024"
    by code_simp
  have b: "\<lfloor>round_binary64 (of_int (100::int) * (5902958103587057 / 1152921504606846976))\<rfloor> = 0"
    by code_simp
  have "prepare_image_for_api sample_pillow (sample_image 200000 100 ''RGB'') 1024
          = resize sample_pillow (sample_image 200000 100 ''RGB'') (1024, 0)"
    using prepare_resize_branch [of "sample_image 200000 100 ''RGB''" 1024 sample_pillow]
    by (simp only: sample_image_sel r a b) simp
  moreover have "validate_uploaded_image (\<lambda>b. Inr (sample_image 200000 100 ''RGB'')) (Some sample_upload) ''face''
     = (True, ''Face image uploaded successfully'', Some (sample_image 200000 100 ''RGB''))"
    by (simp add: validate_uploaded_image_def sample_upload_def title_face)
  ultimately show ?thesis
    by (simp add: resize_def c_int_def)
qed

text \<open>
  C3. For a well-formed image and any \<open>max_size\<close>, preparing twice is preparing once:
  an image returned by \<open>_prepare_image_for_api\<close> is returned unchanged by a second call
  (and a call that raises, raises). An RGB image whose larger dimension is at most
  \<open>max_size\<close> is returned as it is.
\<close>

theorem prepare_idempotent:
  assumes "well_formed im"
  shows "bind_exc (prepare_image_for_api pl im M) (\<lambda>im'. prepare_image_for_api pl im' M)
           = prepare_image_for_api pl im M
       \<and> (\<forall>im'. prepare_image_for_api pl im M = Inr im' \<longrightarrow> prepare_image_for_api pl im' M = Inr im')
       \<and> (mode im = ''RGB'' \<and> max (width im) (height im) \<le> M \<longrightarrow> prepare_image_for_api pl im M = Inr im)"
proof -
  have a: "prepare_image_for_api pl im' M = Inr im'" if "prepare_image_for_api pl im M = Inr im'" for im'
  proof -
    from prepare_result [OF assms that]
    show ?thesis by (intro prepare_small_rgb) simp_all
  qed
  have b: "bind_exc (prepare_image_for_api pl im M) (\<lambda>im'. prepare_image_for_api pl im' M)
           = prepare_image_for_api pl im M"
    using a by (cases "prepare_image_for_api pl im M") simp_all
  have c: "mode im = ''RGB'' \<and> max (width im) (height im) \<le> M \<longrightarrow> prepare_image_for_api pl im M = Inr im"
    by (simp add: prepare_small_rgb)
  from a b c show ?thesis by blast
qed

theorem prepare_idempotent_witness:
  "well_formed (sample_image 1122 105 ''RGBA'')
   \<and> bind_exc (prepare_image_for_api sample_pillow (sample_image 1122 105 ''RGBA'') 1024)
        (\<lambda>im'. prepare_image_for_api sample_pillow im' 1024)
        = prepare_image_for_api sample_pillow (sample_image 1122 105 ''RGBA'') 1024
   \<and> well_formed (sample_image 300 300 ''RGB'')
   \<and> mode (sample_image 300 300 ''RGB'') = ''RGB''
   \<and> max (width (sample_image 300 300 ''RGB'')) (height (sample_image 300 300 ''RGB'')) \<le> 1024
   \<and> prepare_image_for_api sample_pillow (sample_image 300 300 ''RGB'') 1024 = Inr (sample_image 300 300 ''RGB'')"
  using prepare_idempotent [of "sample_image 1122 105 ''RGBA''" sample_pillow 1024]
        prepare_idempotent [of "sample_image 300 300 ''RGB''" sample_pillow 1024]
  by (simp add: well_formed_def)

subsection \<open>MergeClient: requests, and validation in the application\<close>

lemma pil_sample_externals [simp]: "pil (sample_externals decoded reply) = sample_pillow"
  by (simp add: sample_externals_def)

lemma pil_decoding_externals [simp]: "pil (decoding_externals reply) = sample_pillow"
  by (simp add: decoding_externals_def)

lemma pil_failing_externals [simp]: "pil failing_externals = sample_pillow"
  by (simp add: failing_externals_def)

lemma merge_request_small:
  assumes "mode f = ''RGB''" "max (width f) (height f) \<le> 1024"
      and "mode b = ''RGB''" "max (width b) (height b) \<le> 1024"
  shows "\<exists>p. merge_request pl f b s =
           Inr \<lparr>req_model = ''gemini-2.0-flash-preview-image-generation'',
                req_contents = [Text p, Img f, Img b],
                response_modalities = [''IMAGE'']\<rparr>"
  using assms by (simp add: merge_request_def prepare_small_rgb bind_exc_def create_merge_prompt_eq)

lemma sample_merge_request:
  "merge_request sample_pillow (sample_image 300 300 ''RGB'') (sample_image 400 600 ''RGB'') ''cartoon'' = Inr sample_request"
proof -
  have a: "prepare_image_for_api sample_pillow (sample_image 300 300 ''RGB'') 1024 = Inr (sample_image 300 300 ''RGB'')"
    by (rule prepare_small_rgb) (simp_all add: sample_image_def)
  have b: "prepare_image_for_api sample_pillow (sample_image 400 600 ''RGB'') 1024 = Inr (sample_image 400 600 ''RGB'')"
    by (rule prepare_small_rgb) (simp_all add: sample_image_def)
  show ?thesis
    by (simp add: merge_request_def a b bind_exc_def create_merge_prompt_eq sample_request_def)
qed


lemma remote_calls_simps [simp]:
  "remote_calls [] = []"
  "remote_calls (Remote_call r # evs) = r # remote_calls evs"
  "remote_calls (Print t # evs) = remote_calls evs"
  "remote_calls (Client_created # evs) = remote_calls evs"
  by (simp_all add: remote_calls_def)

lemma remote_calls_append [simp]: "remote_calls (xs @ ys) = remote_calls xs @ remote_calls ys"
  by (simp add: remote_calls_def)

lemma merge_calls:
  "remote_calls (snd (merge_face_into_book_cover ext f b s)) =
     (case merge_request (pil ext) f b s of Inl e \<Rightarrow> [] | Inr req \<Rightarrow> [req])"
  by (simp add: merge_face_into_book_cover_def merge_body_def split: sum.splits prod.splits)

text \<open>
  C7, as stated, fails: \<open>merge_face_into_book_cover\<close> has no dimension check, and
  called with a 50x50 face image and a 400x600 book cover it sends a request.
\<close>

theorem merge_small_face_calls_remote:
  "remote_calls (snd (merge_face_into_book_cover
      (sample_externals (sample_image 50 50 ''RGB'') (Inr \<lparr>candidates = Some []\<rparr>))
      (sample_image 50 50 ''RGB'') (sample_image 400 600 ''RGB'') ''natural'')) \<noteq> []"
proof -
  obtain p where "merge_request sample_pillow (sample_image 50 50 ''RGB'') (sample_image 400 600 ''RGB'') ''natural'' =
           Inr \<lparr>req_model = ''gemini-2.0-flash-preview-image-generation'',
                req_contents = [Text p, Img (sample_image 50 50 ''RGB''), Img (sample_image 400 600 ''RGB'')],
                response_modalities = [''IMAGE'']\<rparr>"
    using merge_request_small [of "sample_image 50 50 ''RGB''" "sample_image 400 600 ''RGB''" sample_pillow "''natural''"]
    by auto
  then show ?thesis by (simp add: merge_calls)
qed

text \<open>
  C7, amended. The rejection is ValidationGate's, in the application: an uploaded face file
  that decodes to 50x50 pixels is refused by \<open>validate_uploaded_image\<close>, the session then
  holds no face image, and the Generate step sends nothing to the remote service.
\<close>

theorem app_rejects_small_face:
  assumes "Image_open ext (file_bytes f) = Inr img" "width img = 50" "height img = 50"
  shows "fst (validate_uploaded_image (Image_open ext) (Some f) ''face'') = False
         \<and> face_image (upload_face ext st f) = None
         \<and> snd (generate_merge ext (upload_face ext st f) style) = []"
proof -
  have low: "width img < 100 \<or> height img < 100" using assms by simp
  have r: "fst (validate_uploaded_image (Image_open ext) (Some f) ''face'') = False"
    using gate_rejects_low(1) [of "Image_open ext" f img "''face''"] assms(1) low by simp
  have u: "face_image (upload_face ext st f) = None"
    using r by (cases "validate_uploaded_image (Image_open ext) (Some f) ''face''") (simp add: upload_face_def)
  have g: "snd (generate_merge ext (upload_face ext st f) style) = []"
    using u by (simp add: generate_merge_def)
  from r u g show ?thesis by simp
qed

theorem app_rejects_small_face_witness:
  "Image_open (sample_externals (sample_image 50 50 ''RGB'') (Inr \<lparr>candidates = Some []\<rparr>)) (file_bytes sample_upload)
      = Inr (sample_image 50 50 ''RGB'')
   \<and> width (sample_image 50 50 ''RGB'') = 50 \<and> height (sample_image 50 50 ''RGB'') = 50
   \<and> fst (validate_uploaded_image (Image_open (sample_externals (sample_image 50 50 ''RGB'') (Inr \<lparr>candidates = Some []\<rparr>)))
            (Some sample_upload) ''face'') = False
   \<and> face_image (upload_face (sample_externals (sample_image 50 50 ''RGB'') (Inr \<lparr>candidates = Some []\<rparr>))
        \<lparr>face_image = None, book_image = Some (sample_image 400 600 ''RGB''), merged_image = None\<rparr> sample_upload) = None
   \<and> snd (generate_merge (sample_externals (sample_image 50 50 ''RGB'') (Inr \<lparr>candidates = Some []\<rparr>))
        (upload_face (sample_externals (sample_image 50 50 ''RGB'') (Inr \<lparr>candidates = Some []\<rparr>))
        \<lparr>face_image = None, book_image = Some (sample_image 400 600 ''RGB''), merged_image = None\<rparr> sample_upload)
        ''natural'') = []"
  using app_rejects_small_face [of "sample_externals (sample_image 50 50 ''RGB'') (Inr \<lparr>candidates = Some []\<rparr>)"
      sample_upload "sample_image 50 50 ''RGB''"
      "\<lparr>face_image = None, book_image = Some (sample_image 400 600 ''RGB''), merged_image = None\<rparr>" "''natural''"]
  by (simp add: sample_externals_def sample_image_def)

subsection \<open>MergeClient: response extraction\<close>

lemma extract_image_none:
  "\<forall>p\<in>set ps. inline_data p = None \<Longrightarrow> extract_image opn ps = Inr None"
  by (induction ps) simp_all

lemma extract_image_first:
  "\<forall>q\<in>set ps1. inline_data q = None \<Longrightarrow> inline_data p = Some b \<Longrightarrow>
     extract_image opn (ps1 @ p # ps2) =
       (case opn (case data b of None \<Rightarrow> [] | Some bs \<Rightarrow> bs) of
          Inl e \<Rightarrow> Inl e | Inr img \<Rightarrow> Inr (Some img))"
  by (induction ps1) (simp_all add: BytesIO_def bind_exc_def)

lemma merge_after_reply:
  assumes "merge_request (pil ext) face book style = Inr req" "generate_content ext req = Inr resp"
  shows "merge_body ext face book style =
           (bind_exc (first_parts resp) (\<lambda>ps. bind_exc (iterate ps) (extract_image (Image_open ext))),
            [Remote_call req])"
  using assms by (simp add: merge_body_def bind_exc_def)

lemma no_parts_no_image:
  assumes "\<forall>c cs ct ps. candidates resp = Some (c # cs) \<longrightarrow> cand_content c = Some ct \<longrightarrow>
             parts ct = Some ps \<longrightarrow> (\<forall>p\<in>set ps. inline_data p = None)"
  shows "bind_exc (first_parts resp) (\<lambda>ps. bind_exc (iterate ps) (extract_image opn)) = Inr None
         \<or> (\<exists>e. bind_exc (first_parts resp) (\<lambda>ps. bind_exc (iterate ps) (extract_image opn)) = Inl e)"
  using assms
  by (auto simp add: first_parts_def iterate_def bind_exc_def extract_image_none
           split: option.splits list.splits)

text \<open>
  C5, as stated, fails: the reply below has two parts with inline data, the second of
  which is an image the decoder accepts, and the result is \<open>None\<close>: the first part's
  bytes are not an image, \<open>Image.open\<close> raises on them, and the loop never reaches the
  second part.
\<close>

theorem merge_undecodable_first_part:
  "Image_open (decoding_externals (Inr two_inline_reply)) [137, 80, 78, 71] = Inr (sample_image 512 768 ''RGB'')
   \<and> generate_content (decoding_externals (Inr two_inline_reply)) sample_request = Inr two_inline_reply
   \<and> merge_face_into_book_cover (decoding_externals (Inr two_inline_reply))
        (sample_image 300 300 ''RGB'') (sample_image 400 600 ''RGB'') ''cartoon''
       = (None, [Remote_call sample_request,
                 Print ''Error generating merged image: cannot identify image file''])"
proof -
  let ?e = "decoding_externals (Inr two_inline_reply)"
  have rq: "merge_request (pil ?e) (sample_image 300 300 ''RGB'') (sample_image 400 600 ''RGB'') ''cartoon'' = Inr sample_request"
    by (simp add: sample_merge_request)
  have g: "generate_content ?e sample_request = Inr two_inline_reply"
    by (simp add: decoding_externals_def)
  have "merge_body ?e (sample_image 300 300 ''RGB'') (sample_image 400 600 ''RGB'') ''cartoon''
          = (Inl (OtherError ''UnidentifiedImageError'' ''cannot identify image file''), [Remote_call sample_request])"
    unfolding merge_after_reply [OF rq g]
    by (simp add: two_inline_reply_def first_parts_def iterate_def BytesIO_def decoding_externals_def)
  then show ?thesis
    using g by (simp add: merge_face_into_book_cover_def decoding_externals_def)
qed

text \<open>
  C5, amended. Once the remote service has replied: if no content part of the reply
  carries inline data (zero parts, or no candidate, content or part list at all, included)
  the result is \<open>None\<close>. If some part carries inline data, only the first such part
  counts: its bytes (none is the empty buffer) go to \<open>Image.open\<close>, and the result is
  the decoded image with nothing printed, or \<open>None\<close> after printing the error when
  \<open>Image.open\<close> raises, whatever the later parts hold. The operation is a total function
  into \<open>image option\<close>: no exception leaves it.
\<close>

theorem merge_decodes_first_inline_part:
  assumes "merge_request (pil ext) face book style = Inr req" "generate_content ext req = Inr resp"
  shows "((\<forall>c cs ct ps. candidates resp = Some (c # cs) \<longrightarrow> cand_content c = Some ct \<longrightarrow>
              parts ct = Some ps \<longrightarrow> (\<forall>p\<in>set ps. inline_data p = None))
            \<longrightarrow> fst (merge_face_into_book_cover ext face book style) = None)
       \<and> (\<forall>c cs ct ps1 p ps2 b.
             candidates resp = Some (c # cs) \<and> cand_content c = Some ct
             \<and> parts ct = Some (ps1 @ p # ps2) \<and> (\<forall>q\<in>set ps1. inline_data q = None)
             \<and> inline_data p = Some b
            \<longrightarrow> merge_face_into_book_cover ext face book style =
                  (case Image_open ext (case data b of None \<Rightarrow> [] | Some bs \<Rightarrow> bs) of
                     Inr img \<Rightarrow> (Some img, [Remote_call req])
                   | Inl e \<Rightarrow> (None, [Remote_call req,
                                  Print (''Error generating merged image: '' @ str_exc e)])))"
proof (intro conjI impI allI)
  assume h: "\<forall>c cs ct ps. candidates resp = Some (c # cs) \<longrightarrow> cand_content c = Some ct \<longrightarrow>
              parts ct = Some ps \<longrightarrow> (\<forall>p\<in>set ps. inline_data p = None)"
  from no_parts_no_image [OF h, of "Image_open ext"]
  show "fst (merge_face_into_book_cover ext face book style) = None"
    by (auto simp add: merge_face_into_book_cover_def merge_after_reply [OF assms])
next
  fix c cs ct ps1 p ps2 b
  assume h: "candidates resp = Some (c # cs) \<and> cand_content c = Some ct
             \<and> parts ct = Some (ps1 @ p # ps2) \<and> (\<forall>q\<in>set ps1. inline_data q = None)
             \<and> inline_data p = Some b"
  let ?payload = "case data b of None \<Rightarrow> [] | Some bs \<Rightarrow> bs"
  from h have x: "extract_image (Image_open ext) (ps1 @ p # ps2) =
                 (case Image_open ext ?payload of Inl e \<Rightarrow> Inl e | Inr img \<Rightarrow> Inr (Some img))"
    by (simp add: extract_image_first)
  from h have "bind_exc (first_parts resp) (\<lambda>ps. bind_exc (iterate ps) (extract_image (Image_open ext)))
                 = extract_image (Image_open ext) (ps1 @ p # ps2)"
    by (simp add: first_parts_def iterate_def)
  then have "merge_body ext face book style =
               ((case Image_open ext ?payload of Inl e \<Rightarrow> Inl e | Inr img \<Rightarrow> Inr (Some img)), [Remote_call req])"
    by (simp only: merge_after_reply [OF assms] x)
  then show "merge_face_into_book_cover ext face book style =
                  (case Image_open ext ?payload of
                     Inr img \<Rightarrow> (Some img, [Remote_call req])
                   | Inl e \<Rightarrow> (None, [Remote_call req,
                                  Print (''Error generating merged image: '' @ str_exc e)]))"
    by (simp add: merge_face_into_book_cover_def split: sum.splits)
qed

theorem merge_decodes_first_inline_part_witness:
  "merge_request (pil (decoding_externals (Inr empty_reply)))
      (sample_image 300 300 ''RGB'') (sample_image 400 600 ''RGB'') ''cartoon'' = Inr sample_request
   \<and> generate_content (decoding_externals (Inr empty_reply)) sample_request = Inr empty_reply
   \<and> fst (merge_face_into_book_cover (decoding_externals (Inr empty_reply))
            (sample_image 300 300 ''RGB'') (sample_image 400 600 ''RGB'') ''cartoon'') = None
   \<and> generate_content (decoding_externals (Inr image_reply)) sample_request = Inr image_reply
   \<and> Image_open (decoding_externals (Inr image_reply)) [137, 80, 78, 71] = Inr (sample_image 512 768 ''RGB'')
   \<and> merge_face_into_book_cover (decoding_externals (Inr image_reply))
            (sample_image 300 300 ''RGB'') (sample_image 400 600 ''RGB'') ''cartoon''
        = (Some (sample_image 512 768 ''RGB''), [Remote_call sample_request])"
proof -
  let ?e1 = "decoding_externals (Inr empty_reply)"
  let ?e2 = "decoding_externals (Inr image_reply)"
  have r1: "merge_request (pil ?e1) (sample_image 300 300 ''RGB'') (sample_image 400 600 ''RGB'') ''cartoon'' = Inr sample_request"
    by (simp add: sample_merge_request)
  have r2: "merge_request (pil ?e2) (sample_image 300 300 ''RGB'') (sample_image 400 600 ''RGB'') ''cartoon'' = Inr sample_request"
    by (simp add: sample_merge_request)
  have g1: "generate_content ?e1 sample_request = Inr empty_reply"
    by (simp add: decoding_externals_def)
  have g2: "generate_content ?e2 sample_request = Inr image_reply"
    by (simp add: decoding_externals_def)
  have o: "Image_open ?e2 [137, 80, 78, 71] = Inr (sample_image 512 768 ''RGB'')"
    by (simp add: decoding_externals_def)
  have a: "fst (merge_face_into_book_cover ?e1 (sample_image 300 300 ''RGB'') (sample_image 400 600 ''RGB'') ''cartoon'') = None"
    using merge_decodes_first_inline_part [OF r1 g1]
    by (simp add: empty_reply_def)
  have b: "merge_face_into_book_cover ?e2 (sample_image 300 300 ''RGB'') (sample_image 400 600 ''RGB'') ''cartoon''
        = (Some (sample_image 512 768 ''RGB''), [Remote_call sample_request])"
    using merge_decodes_first_inline_part [OF r2 g2, THEN conjunct2, rule_format,
        of "\<lparr>cand_content = Some \<lparr>parts = Some
              [\<lparr>inline_data = None, part_text = Some ''Here is the cover''\<rparr>,
               \<lparr>inline_data = Some \<lparr>data = Some [137, 80, 78, 71]\<rparr>, part_text = None\<rparr>]\<rparr>\<rparr>"
           "[]"
           "\<lparr>parts = Some
              [\<lparr>inline_data = None, part_text = Some ''Here is the cover''\<rparr>,
               \<lparr>inline_data = Some \<lparr>data = Some [137, 80, 78, 71]\<rparr>, part_text = None\<rparr>]\<rparr>"
           "[\<lparr>inline_data = None, part_text = Some ''Here is the cover''\<rparr>]"
           "\<lparr>inline_data = Some \<lparr>data = Some [137, 80, 78, 71]\<rparr>, part_text = None\<rparr>"
           "[]" "\<lparr>data = Some [137, 80, 78, 71]\<rparr>"]
    by (simp add: image_reply_def decoding_externals_def)
  from r1 g1 a g2 o b show ?thesis by simp
qed

subsection \<open>MergeClient: failures\<close>



text \<open>
  C10. \<open>validate_images\<close> always returns a pair with a non-empty message. With both
  images at or above their minimum dimensions, the result is decided by what the JPEG
  re-encoding of each image does: an encoder exception on the face image, or on the book
  cover once the face image is within 10 MiB, gives \<open>(False, Error validating images: ...)\<close>;
  otherwise the two encoded lengths are compared with 10 MiB.
\<close>

theorem validate_images_reencodes_as_jpeg:
  "snd (validate_images ext f b) \<noteq> []
   \<and> (100 \<le> width f \<and> 100 \<le> height f \<and> 200 \<le> width b \<and> 200 \<le> height b \<and> save_jpeg ext f = Inl e
        \<longrightarrow> validate_images ext f b = (False, ''Error validating images: '' @ str_exc e))
   \<and> (100 \<le> width f \<and> 100 \<le> height f \<and> 200 \<le> width b \<and> 200 \<le> height b
        \<and> save_jpeg ext f = Inr n \<and> n \<le> 10 * 1024 * 1024 \<and> save_jpeg ext b = Inl e
        \<longrightarrow> validate_images ext f b = (False, ''Error validating images: '' @ str_exc e))
   \<and> (100 \<le> width f \<and> 100 \<le> height f \<and> 200 \<le> width b \<and> 200 \<le> height b
        \<and> save_jpeg ext f = Inr n \<and> save_jpeg ext b = Inr k
        \<longrightarrow> validate_images ext f b =
              (if n > 10 * 1024 * 1024 then (False, ''Face image file is too large (max 10MB)'')
               else if k > 10 * 1024 * 1024 then (False, ''Book cover image file is too large (max 10MB)'')
               else (True, ''Images are suitable for merging'')))"
  by (auto simp add: validate_images_def split: sum.splits)

theorem validate_images_reencodes_as_jpeg_witness:
  "100 \<le> width (sample_image 300 300 ''RGBA'') \<and> 100 \<le> height (sample_image 300 300 ''RGBA'')
   \<and> 200 \<le> width (sample_image 400 600 ''RGB'') \<and> 200 \<le> height (sample_image 400 600 ''RGB'')
   \<and> save_jpeg failing_externals (sample_image 300 300 ''RGBA'') = Inl (OSError ''cannot write mode RGBA as JPEG'')
   \<and> validate_images failing_externals (sample_image 300 300 ''RGBA'') (sample_image 400 600 ''RGB'')
       = (False, ''Error validating images: cannot write mode RGBA as JPEG'')
   \<and> save_jpeg failing_externals (sample_image 300 300 ''RGB'') = Inr 4096
   \<and> save_jpeg failing_externals (sample_image 400 600 ''RGB'') = Inr 4096
   \<and> validate_images failing_externals (sample_image 300 300 ''RGB'') (sample_image 400 600 ''RGB'')
       = (True, ''Images are suitable for merging'')
   \<and> save_jpeg failing_externals (sample_image 400 600 ''RGBA'') = Inl (OSError ''cannot write mode RGBA as JPEG'')
   \<and> validate_images failing_externals (sample_image 300 300 ''RGB'') (sample_image 400 600 ''RGBA'')
       = (False, ''Error validating images: cannot write mode RGBA as JPEG'')"
  using validate_images_reencodes_as_jpeg [of failing_externals "sample_image 300 300 ''RGBA''"
          "sample_image 400 600 ''RGB''" "OSError ''cannot write mode RGBA as JPEG''" 0 0]
        validate_images_reencodes_as_jpeg [of failing_externals "sample_image 300 300 ''RGB''"
          "sample_image 400 600 ''RGB''" "OSError ''x''" 4096 4096]
        validate_images_reencodes_as_jpeg [of failing_externals "sample_image 300 300 ''RGB''"
          "sample_image 400 600 ''RGBA''" "OSError ''cannot write mode RGBA as JPEG''" 4096 0]
  by (simp add: failing_externals_def sample_externals_def sample_image_def)

end
